theory Spec2Isabelle
  imports Complex_Main
begin

section \<open>The auto-scroll marshal of react-beautiful-dnd\<close>

text \<open>
  A shallow embedding of \<^verbatim>\<open>src/state/auto-scroll-marshal/auto-scroll-marshal.js\<close>.
  The solver and the marshal read JavaScript numbers as exact real numbers. The
  thresholds and the speed function are given a second time in double precision
  (\<open>getPixelThresholds64\<close>, \<open>getSpeed64\<close>), for the bounds of the speed, which
  depend on rounding. Infinities and NaN are outside both readings.
\<close>

subsection \<open>Geometry\<close>

text \<open>
  Modelled from the spec: the types \<^verbatim>\<open>Position\<close>, \<^verbatim>\<open>Area\<close> and \<^verbatim>\<open>Spacing\<close> of
  \<^verbatim>\<open>../../types\<close> are not part of the source file. A position is a vector
  \<^verbatim>\<open>{x, y}\<close>, an area has the four edges and a width and a height, all six stored
  (nothing ties the width to the edges), and a spacing has the four edge distances.
\<close>

record Position =
  pos_x :: real
  pos_y :: real

record Area =
  area_top :: real
  area_right :: real
  area_bottom :: real
  area_left :: real
  area_width :: real
  area_height :: real

record Spacing =
  spacing_top :: real
  spacing_right :: real
  spacing_bottom :: real
  spacing_left :: real

text \<open>
  Modelled from the spec: the axis descriptors of \<^verbatim>\<open>../axis\<close> are not part of the
  source file. An axis names the fields of a rectangle that belong to it; the marshal
  reads only \<^verbatim>\<open>axis.size\<close>, which is \<^verbatim>\<open>height\<close> for the vertical axis and
  \<^verbatim>\<open>width\<close> for the horizontal one.
\<close>

record Axis =
  axis_size :: "Area \<Rightarrow> real"

definition vertical :: Axis where
  "vertical = \<lparr>axis_size = area_height\<rparr>"

definition horizontal :: Axis where
  "horizontal = \<lparr>axis_size = area_width\<rparr>"

text \<open>
  Modelled from the spec: \<^verbatim>\<open>isEqual\<close> of \<^verbatim>\<open>../position\<close> is not part of the source
  file. Positions are compared by structural equality.
\<close>

definition isEqual :: "Position \<Rightarrow> Position \<Rightarrow> bool" where
  "isEqual point1 point2 \<longleftrightarrow> pos_x point1 = pos_x point2 \<and> pos_y point1 = pos_y point2"

text \<open>
  Modelled from the spec: \<^verbatim>\<open>add\<close> of \<^verbatim>\<open>../position\<close> is not part of the source
  file. Positions are combined by vector addition.
\<close>

definition add :: "Position \<Rightarrow> Position \<Rightarrow> Position" where
  "add point1 point2 =
     \<lparr>pos_x = pos_x point1 + pos_x point2, pos_y = pos_y point1 + pos_y point2\<rparr>"

subsection \<open>Configuration and thresholds\<close>

text \<open>The fields of the constant \<^verbatim>\<open>config\<close>, one definition each.\<close>

definition config_startFrom :: real where
  "config_startFrom = 0.25"

definition config_maxSpeedAt :: real where
  "config_maxSpeedAt = 0.05"

definition config_maxScrollSpeed :: real where
  "config_maxScrollSpeed = 28"

definition config_ease :: "real \<Rightarrow> real" where
  "config_ease percentage = percentage ^ 2"

definition origin :: Position where
  "origin = \<lparr>pos_x = 0, pos_y = 0\<rparr>"

record PixelThresholds =
  startFrom :: real
  maxSpeedAt :: real
  accelerationPlane :: real

definition getPixelThresholds :: "Area \<Rightarrow> Axis \<Rightarrow> PixelThresholds" where
  "getPixelThresholds container axis =
     (let startFrom = axis_size axis container * config_startFrom;
          maxSpeedAt = axis_size axis container * config_maxSpeedAt;
          accelerationPlane = startFrom - maxSpeedAt
      in \<lparr>startFrom = startFrom, maxSpeedAt = maxSpeedAt,
          accelerationPlane = accelerationPlane\<rparr>)"

subsection \<open>The speed function and the required-scroll solver\<close>

text \<open>
  The division is reached only when \<open>maxSpeedAt < distance < startFrom\<close>. In HOL a
  division by zero is zero, in JavaScript it is an infinity; lemma
  \<open>getPixelThresholds_plane_pos\<close> below shows that thresholds built by
  \<open>getPixelThresholds\<close> never reach the division with a zero divisor.
\<close>

definition getSpeed :: "real \<Rightarrow> PixelThresholds \<Rightarrow> real" where
  "getSpeed distance thresholds =
     (if distance \<ge> startFrom thresholds then 0
      else if distance \<le> maxSpeedAt thresholds then config_maxScrollSpeed
      else
        (let distancePastStart = startFrom thresholds - distance;
             percentage = distancePastStart / accelerationPlane thresholds;
             transformed = config_ease percentage;
             speed = config_maxScrollSpeed * transformed
         in speed))"

definition getRequiredScroll :: "Area \<Rightarrow> Position \<Rightarrow> Position option" where
  "getRequiredScroll container center =
     (let distance =
            \<lparr>spacing_top = pos_y center - area_top container,
             spacing_right = area_right container - pos_x center,
             spacing_bottom = area_bottom container - pos_y center,
             spacing_left = pos_x center - area_left container\<rparr>;
          y = (let thresholds = getPixelThresholds container vertical;
                   isCloserToBottom = spacing_bottom distance < spacing_top distance
               in if isCloserToBottom then getSpeed (spacing_bottom distance) thresholds
                  else -1 * getSpeed (spacing_top distance) thresholds);
          x = (let thresholds = getPixelThresholds container horizontal;
                   isCloserToRight = spacing_right distance < spacing_left distance
               in if isCloserToRight then getSpeed (spacing_right distance) thresholds
                  else -1 * getSpeed (spacing_left distance) thresholds);
          required = \<lparr>pos_x = x, pos_y = y\<rparr>
      in if isEqual required origin then None else Some required)"

definition isTooBigForAutoScrolling :: "Area \<Rightarrow> Area \<Rightarrow> bool" where
  "isTooBigForAutoScrolling frame subject \<longleftrightarrow>
     area_width subject > area_width frame \<or> area_height subject > area_height frame"

subsection \<open>Double-precision arithmetic\<close>

text \<open>
  A JavaScript number is an IEEE-754 double. \<open>round64\<close> rounds a real number to the
  nearest double, ties to even: the quantum \<open>ulp x\<close> of \<open>x\<close> is \<open>2 ^ (e - 52)\<close> where
  \<open>2 ^ e \<le> \<bar>x\<bar> < 2 ^ (e + 1)\<close>, and never less than \<open>minQuantum = 2 ^ (- 1074)\<close>, so
  that underflow is gradual; the result is the multiple of the quantum nearest to
  \<open>x\<close>. \<open>ulp_up\<close> and \<open>ulp_down\<close> search the quantum from \<open>2 ^ (- 52)\<close>, the quantum
  of 1. Overflow to an infinity is not part of \<open>round64\<close>: \<open>isDouble x\<close> says that
  \<open>x\<close> is a double below \<open>2 ^ 1024\<close>, and the property of the speed function below
  shows that the thresholds and the speed are such doubles.
\<close>

definition minQuantum :: real where
  "minQuantum = 1 / 2 ^ 1074"

definition overflowThreshold :: real where
  "overflowThreshold = 2 ^ 1024"

function ulp_up :: "real \<Rightarrow> real \<Rightarrow> real" where
  "ulp_up q x = (if q \<le> 0 \<or> x < q * 2 ^ 53 then q else ulp_up (2 * q) x)"
  by pat_completeness auto
termination
proof (relation "measure (\<lambda>(q, x). nat \<lceil>x / q\<rceil>)")
  show "wf (measure (\<lambda>(q, x). nat \<lceil>x / q\<rceil>))" by simp
next
  fix q x :: real
  assume "\<not> (q \<le> 0 \<or> x < q * 2 ^ 53)"
  then have "0 < q" "q * 2 ^ 53 \<le> x" by simp_all
  then have "2 ^ 53 \<le> x / q" by (simp add: pos_le_divide_eq mult.commute)
  then have "1 < x / q" by simp
  define y where "y = x / q"
  have c: "2 \<le> \<lceil>y\<rceil>" using \<open>1 < x / q\<close> by (simp add: y_def less_ceiling_iff)
  then have "2 \<le> real_of_int \<lceil>y\<rceil>" by linarith
  moreover have "y \<le> real_of_int \<lceil>y\<rceil>" by (rule le_of_int_ceiling)
  ultimately have "y / 2 \<le> real_of_int \<lceil>y\<rceil> - 1" by linarith
  then have "y / 2 \<le> real_of_int (\<lceil>y\<rceil> - 1)" by simp
  then have "\<lceil>y / 2\<rceil> \<le> \<lceil>y\<rceil> - 1" by (simp only: ceiling_le_iff)
  then have "nat \<lceil>y / 2\<rceil> < nat \<lceil>y\<rceil>" using c by simp
  moreover have "x / (2 * q) = y / 2" by (simp add: y_def)
  ultimately have "nat \<lceil>x / (2 * q)\<rceil> < nat \<lceil>x / q\<rceil>" by (simp only: y_def)
  then show "((2 * q, x), (q, x)) \<in> measure (\<lambda>(q, x). nat \<lceil>x / q\<rceil>)"
    by (simp only: in_measure split_conv)
qed

function ulp_down :: "real \<Rightarrow> real \<Rightarrow> real" where
  "ulp_down q x = (if q \<le> minQuantum \<or> q * 2 ^ 52 \<le> x then q else ulp_down (q / 2) x)"
  by pat_completeness auto
termination
proof (relation "measure (\<lambda>(q, x). nat \<lceil>q / minQuantum\<rceil>)")
  show "wf (measure (\<lambda>(q, x). nat \<lceil>q / minQuantum\<rceil>))" by simp
next
  fix q x :: real
  assume "\<not> (q \<le> minQuantum \<or> q * 2 ^ 52 \<le> x)"
  then have "minQuantum < q" by simp
  moreover have "0 < minQuantum" by (simp add: minQuantum_def)
  ultimately have "1 < q / minQuantum" by (simp add: pos_less_divide_eq)
  define y where "y = q / minQuantum"
  have c: "2 \<le> \<lceil>y\<rceil>" using \<open>1 < q / minQuantum\<close> by (simp add: y_def less_ceiling_iff)
  then have "2 \<le> real_of_int \<lceil>y\<rceil>" by linarith
  moreover have "y \<le> real_of_int \<lceil>y\<rceil>" by (rule le_of_int_ceiling)
  ultimately have "y / 2 \<le> real_of_int \<lceil>y\<rceil> - 1" by linarith
  then have "y / 2 \<le> real_of_int (\<lceil>y\<rceil> - 1)" by simp
  then have "\<lceil>y / 2\<rceil> \<le> \<lceil>y\<rceil> - 1" by (simp only: ceiling_le_iff)
  then have "nat \<lceil>y / 2\<rceil> < nat \<lceil>y\<rceil>" using c by simp
  moreover have "q / 2 / minQuantum = y / 2" by (simp add: y_def)
  ultimately have "nat \<lceil>q / 2 / minQuantum\<rceil> < nat \<lceil>q / minQuantum\<rceil>"
    by (simp only: y_def)
  then show "((q / 2, x), (q, x)) \<in> measure (\<lambda>(q, x). nat \<lceil>q / minQuantum\<rceil>)"
    by (simp only: in_measure split_conv)
qed

declare ulp_up.simps [simp del] ulp_down.simps [simp del]

definition ulp :: "real \<Rightarrow> real" where
  "ulp x = (if 1 \<le> \<bar>x\<bar> then ulp_up (1 / 2 ^ 52) \<bar>x\<bar> else ulp_down (1 / 2 ^ 52) \<bar>x\<bar>)"

definition roundTiesToEven :: "real \<Rightarrow> int" where
  "roundTiesToEven y =
     (let n = \<lfloor>y\<rfloor>; r = y - of_int n
      in if r < 1 / 2 then n else if 1 / 2 < r then n + 1 else if even n then n else n + 1)"

definition round64 :: "real \<Rightarrow> real" where
  "round64 x = ulp x * of_int (roundTiesToEven (x / ulp x))"

definition isDouble :: "real \<Rightarrow> bool" where
  "isDouble x \<longleftrightarrow> round64 x = x \<and> \<bar>x\<bar> < overflowThreshold"

subsection \<open>The thresholds and the speed function in double precision\<close>

text \<open>
  The same lines of the source as \<open>getPixelThresholds\<close> and \<open>getSpeed\<close>, with every
  number a double: a literal is the double nearest to it, an arithmetic operation is
  the exact operation followed by \<open>round64\<close>, and a comparison is exact.
  \<^verbatim>\<open>Math.pow(percentage, 2)\<close> is taken as the correctly rounded square. As in
  \<open>getSpeed\<close>, the division is reached with a zero divisor by no thresholds that
  \<open>getPixelThresholds64\<close> builds.
\<close>

definition getPixelThresholds64 :: "Area \<Rightarrow> Axis \<Rightarrow> PixelThresholds" where
  "getPixelThresholds64 container axis =
     (let startFrom = round64 (axis_size axis container * round64 config_startFrom);
          maxSpeedAt = round64 (axis_size axis container * round64 config_maxSpeedAt);
          accelerationPlane = round64 (startFrom - maxSpeedAt)
      in \<lparr>startFrom = startFrom, maxSpeedAt = maxSpeedAt,
          accelerationPlane = accelerationPlane\<rparr>)"

definition config_ease64 :: "real \<Rightarrow> real" where
  "config_ease64 percentage = round64 (percentage ^ 2)"

definition getSpeed64 :: "real \<Rightarrow> PixelThresholds \<Rightarrow> real" where
  "getSpeed64 distance thresholds =
     (if distance \<ge> startFrom thresholds then 0
      else if distance \<le> maxSpeedAt thresholds then config_maxScrollSpeed
      else
        (let distancePastStart = round64 (startFrom thresholds - distance);
             percentage = round64 (distancePastStart / accelerationPlane thresholds);
             transformed = config_ease64 percentage;
             speed = round64 (config_maxScrollSpeed * transformed)
         in speed))"

subsection \<open>Drag state and dimensions\<close>

text \<open>
  Modelled from the spec: the state types of \<^verbatim>\<open>../../types\<close> are not part of the
  source file. Each record has the fields the marshal reads, a nested path written as one field:
  \<open>drag_initial_descriptor_id\<close> is \<^verbatim>\<open>drag.initial.descriptor.id\<close>. A phase and an
  auto-scroll mode are the strings the source compares them with.
\<close>

type_synonym DraggableId = string
type_synonym DroppableId = string

record DraggableLocation =
  location_droppableId :: DroppableId

record DragState =
  drag_initial_descriptor_id :: DraggableId
  drag_initial_autoScrollMode :: string
  drag_current_client_selection :: Position
  drag_current_page_center :: Position
  drag_impact_destination :: "DraggableLocation option"
  drag_scrollJumpRequest :: "Position option"

record DraggableDimension =
  draggable_page_withMargin :: Area

record ClosestScrollable =
  scrollable_frame :: Area

record DroppableDimension =
  droppable_descriptor_id :: DroppableId
  droppable_viewport_closestScrollable :: "ClosestScrollable option"

record State =
  state_phase :: string
  state_drag :: "DragState option"
  state_dimension_draggable :: "DraggableId \<rightharpoonup> DraggableDimension"
  state_dimension_droppable :: "DroppableId \<rightharpoonup> DroppableDimension"

subsection \<open>Collaborators and effects\<close>

text \<open>
  The functions the marshal imports and only reads from (\<^verbatim>\<open>getViewport\<close>,
  \<^verbatim>\<open>getWindowScrollPosition\<close>, the capability and overlap functions of
  \<^verbatim>\<open>./can-scroll\<close> and \<^verbatim>\<open>getScrollableDroppableOver\<close>) are not part of the source
  file: they are parameters, the fields of \<open>Env\<close>. Within one call of the marshal
  each of them is consulted before the first scroll or move is performed, so one
  snapshot of their answers is what the call sees.
\<close>

record Env =
  getViewport :: Area
  getWindowScrollPosition :: Position
  canScrollWindow :: "Position \<Rightarrow> bool"
  canScrollDroppable :: "DroppableDimension \<Rightarrow> Position \<Rightarrow> bool"
  getWindowOverlap :: "Position \<Rightarrow> Position option"
  getDroppableOverlap :: "DroppableDimension \<Rightarrow> Position \<Rightarrow> Position option"
  getScrollableDroppableOver ::
    "Position \<Rightarrow> (DroppableId \<rightharpoonup> DroppableDimension) \<Rightarrow> DroppableDimension option"

text \<open>
  What a call does to the outside is the list of its effects, in order: the console
  messages, the calls of the two frame-scheduled functions and of their \<^verbatim>\<open>cancel\<close>,
  the immediate calls of \<^verbatim>\<open>scrollWindow\<close> and \<^verbatim>\<open>scrollDroppable\<close>, and the calls of
  \<^verbatim>\<open>move\<close>. \<open>GetRequiredScrollCall\<close> notes a call of the solver \<open>getRequiredScroll\<close>,
  as a spy on it would: the solver is pure, the note is there for the properties that
  say when it is invoked.
\<close>

datatype Effect =
    ConsoleError string
  | ConsoleWarn string "Position option"
  | GetRequiredScrollCall Area Position
  | ScheduleWindowScroll Position
  | ScheduleDroppableScroll DroppableId Position
  | CancelWindowScroll
  | CancelDroppableScroll
  | ScrollWindow Position
  | ScrollDroppable DroppableId Position
  | Move DraggableId Position Position bool

text \<open>
  A call returns, or throws the \<^verbatim>\<open>TypeError\<close> of reading a property of
  \<^verbatim>\<open>undefined\<close> or \<^verbatim>\<open>null\<close> (a dimension that is not registered, a droppable
  without closest scrollable where the source reads its frame).
\<close>

datatype Outcome = Returned | TypeError

subsection \<open>The marshal\<close>

definition fluidScroll :: "Env \<Rightarrow> State \<Rightarrow> Effect list \<times> Outcome" where
  "fluidScroll env state =
     (case state_drag state of
        None \<Rightarrow> ([ConsoleError ''Invalid drag state''], Returned)
      | Some drag \<Rightarrow>
          (let center = drag_current_page_center drag in
           case state_dimension_draggable state (drag_initial_descriptor_id drag) of
             None \<Rightarrow> ([], TypeError)
           | Some draggable \<Rightarrow>
               (let viewport = getViewport env in
                if isTooBigForAutoScrolling viewport (draggable_page_withMargin draggable)
                then ([], Returned)
                else
                  (let requiredWindowScroll = getRequiredScroll viewport center;
                       overDroppable =
                         (case getScrollableDroppableOver env center
                                 (state_dimension_droppable state) of
                            None \<Rightarrow> ([GetRequiredScrollCall viewport center], Returned)
                          | Some droppable \<Rightarrow>
                              (case droppable_viewport_closestScrollable droppable of
                                 None \<Rightarrow> ([GetRequiredScrollCall viewport center], TypeError)
                               | Some closestScrollable \<Rightarrow>
                                   if isTooBigForAutoScrolling
                                        (scrollable_frame closestScrollable)
                                        (draggable_page_withMargin draggable)
                                   then ([GetRequiredScrollCall viewport center], Returned)
                                   else
                                     (let requiredFrameScroll =
                                            getRequiredScroll
                                              (scrollable_frame closestScrollable) center
                                      in
                                      ([GetRequiredScrollCall viewport center,
                                        GetRequiredScrollCall
                                          (scrollable_frame closestScrollable) center]
                                       @ (case requiredFrameScroll of
                                            None \<Rightarrow> []
                                          | Some required \<Rightarrow>
                                              if canScrollDroppable env droppable required
                                              then [ScheduleDroppableScroll
                                                      (droppable_descriptor_id droppable)
                                                      required]
                                              else []),
                                       Returned))))
                   in
                   case requiredWindowScroll of
                     None \<Rightarrow> overDroppable
                   | Some required \<Rightarrow>
                       if canScrollWindow env required
                       then ([GetRequiredScrollCall viewport center,
                              ScheduleWindowScroll required], Returned)
                       else overDroppable))))"

definition performMove :: "Env \<Rightarrow> State \<Rightarrow> Position \<Rightarrow> Effect list" where
  "performMove env state offset =
     (case state_drag state of
        None \<Rightarrow> []
      | Some drag \<Rightarrow>
          (let client = add (drag_current_client_selection drag) offset
           in [Move (drag_initial_descriptor_id drag) client
                 (getWindowScrollPosition env) True]))"

definition jumpScroll :: "Env \<Rightarrow> State \<Rightarrow> Effect list \<times> Outcome" where
  "jumpScroll env state =
     (case state_drag state of
        None \<Rightarrow> ([], Returned)
      | Some drag \<Rightarrow>
          (case drag_scrollJumpRequest drag of
             None \<Rightarrow> ([], Returned)
           | Some request \<Rightarrow>
               (let draggable =
                      state_dimension_draggable state (drag_initial_descriptor_id drag);
                    destination = drag_impact_destination drag
                in
                case destination of
                  None \<Rightarrow>
                    ([ConsoleError
                        ''Cannot perform a jump scroll when there is no destination''],
                     Returned)
                | Some destination \<Rightarrow>
                    (case state_dimension_droppable state
                            (location_droppableId destination) of
                       None \<Rightarrow> ([], TypeError)
                     | Some droppable \<Rightarrow>
                         (let closestScrollable =
                                droppable_viewport_closestScrollable droppable;
                              scrollTheWindow =
                                (case draggable of
                                   None \<Rightarrow> ([], TypeError)
                                 | Some draggable \<Rightarrow>
                                     if isTooBigForAutoScrolling (getViewport env)
                                          (draggable_page_withMargin draggable)
                                     then (performMove env state request, Returned)
                                     else if \<not> canScrollWindow env request
                                     then
                                       (ConsoleWarn
                                          ''Jump scroll requested but it cannot be done by Droppable or the Window''
                                          None
                                        # performMove env state request, Returned)
                                     else
                                       (let overlap = getWindowOverlap env request
                                        in
                                        ((case overlap of
                                            None \<Rightarrow> []
                                          | Some overlap \<Rightarrow>
                                              ConsoleWarn ''WINDOW OVERLAP'' (Some overlap)
                                              # performMove env state overlap)
                                         @ [ScrollWindow request], Returned)))
                          in
                          case closestScrollable of
                            None \<Rightarrow> scrollTheWindow
                          | Some closestScrollable \<Rightarrow>
                              (case draggable of
                                 None \<Rightarrow> ([], TypeError)
                               | Some draggable \<Rightarrow>
                                   if isTooBigForAutoScrolling
                                        (scrollable_frame closestScrollable)
                                        (draggable_page_withMargin draggable)
                                   then (performMove env state request, Returned)
                                   else if canScrollDroppable env droppable request
                                   then
                                     ((if \<not> canScrollWindow env request
                                       then
                                         (let overlap =
                                                getDroppableOverlap env droppable request
                                          in
                                          case overlap of
                                            None \<Rightarrow> []
                                          | Some overlap \<Rightarrow>
                                              ConsoleWarn ''DROPPABLE OVERLAP''
                                                (Some overlap)
                                              # performMove env state overlap)
                                       else [])
                                      @ [ScrollDroppable
                                           (droppable_descriptor_id droppable) request],
                                      Returned)
                                   else scrollTheWindow))))))"

definition onStateChange :: "Env \<Rightarrow> State \<Rightarrow> State \<Rightarrow> Effect list \<times> Outcome" where
  "onStateChange env previous current =
     (let cancelPending =
            (if state_phase previous = ''DRAGGING'' \<and> state_phase current \<noteq> ''DRAGGING''
             then [CancelWindowScroll, CancelDroppableScroll]
             else [])
      in
      if state_phase current = ''DRAGGING''
      then
        (case state_drag current of
           None \<Rightarrow> ([ConsoleError ''invalid drag state''], Returned)
         | Some drag \<Rightarrow>
             if drag_initial_autoScrollMode drag = ''FLUID''
             then fluidScroll env current
             else
               (case drag_scrollJumpRequest drag of
                  None \<Rightarrow> ([], Returned)
                | Some request \<Rightarrow>
                    (case jumpScroll env current of
                       (effects, TypeError) \<Rightarrow> (effects, TypeError)
                     | (effects, Returned) \<Rightarrow> (effects @ cancelPending, Returned))))
      else (cancelPending, Returned))"

subsection \<open>The frame scheduler\<close>

text \<open>
  Modelled from the spec: \<^verbatim>\<open>rafSchd\<close> of the package \<^verbatim>\<open>raf-schd\<close> is not part of
  the source file. Each of the two scheduled functions has a single slot holding the
  latest pending call: scheduling overwrites the slot, \<^verbatim>\<open>cancel\<close> empties it, and the
  next frame invokes the scroll function with the slot's arguments, if any.
\<close>

record Scheduled =
  pendingWindowScroll :: "Position option"
  pendingDroppableScroll :: "(DroppableId \<times> Position) option"

fun schedule :: "Scheduled \<Rightarrow> Effect \<Rightarrow> Scheduled" where
  "schedule s (ScheduleWindowScroll change) = s\<lparr>pendingWindowScroll := Some change\<rparr>"
| "schedule s (ScheduleDroppableScroll ident change) =
     s\<lparr>pendingDroppableScroll := Some (ident, change)\<rparr>"
| "schedule s CancelWindowScroll = s\<lparr>pendingWindowScroll := None\<rparr>"
| "schedule s CancelDroppableScroll = s\<lparr>pendingDroppableScroll := None\<rparr>"
| "schedule s _ = s"

definition nextFrame :: "Scheduled \<Rightarrow> Effect set" where
  "nextFrame s =
     (case pendingWindowScroll s of None \<Rightarrow> {} | Some change \<Rightarrow> {ScrollWindow change})
     \<union> (case pendingDroppableScroll s of
          None \<Rightarrow> {}
        | Some (ident, change) \<Rightarrow> {ScrollDroppable ident change})"

subsection \<open>Example data\<close>

text \<open>The viewport of the spec's worked example: 1000 wide, 800 high, at the origin.\<close>

definition exampleViewport :: Area where
  "exampleViewport =
     \<lparr>area_top = 0, area_right = 1000, area_bottom = 800, area_left = 0,
      area_width = 1000, area_height = 800\<rparr>"


text \<open>
  The double that the literal \<^verbatim>\<open>40.00000000000001\<close> denotes, the next double above 40,
  and a viewport whose sides are the smallest positive double.
\<close>

definition justAboveMaxSpeedAt :: real where
  "justAboveMaxSpeedAt = round64 40.00000000000001"

definition tinyViewport :: Area where
  "tinyViewport =
     \<lparr>area_top = 0, area_right = minQuantum, area_bottom = minQuantum, area_left = 0,
      area_width = minQuantum, area_height = minQuantum\<rparr>"

text \<open>
  A scrollable frame of 300 by 400, three dragged items (one that fits everywhere, one
  wider than the frame, one wider than the viewport), a droppable inside the frame and
  one without a closest scrollable.
\<close>

definition exampleFrame :: Area where
  "exampleFrame =
     \<lparr>area_top = 100, area_right = 400, area_bottom = 500, area_left = 100,
      area_width = 300, area_height = 400\<rparr>"

definition exampleItem :: DraggableDimension where
  "exampleItem =
     \<lparr>draggable_page_withMargin =
        \<lparr>area_top = 380, area_right = 300, area_bottom = 420, area_left = 200,
         area_width = 100, area_height = 40\<rparr>\<rparr>"

definition mediumItem :: DraggableDimension where
  "mediumItem =
     \<lparr>draggable_page_withMargin =
        \<lparr>area_top = 380, area_right = 600, area_bottom = 420, area_left = 100,
         area_width = 500, area_height = 40\<rparr>\<rparr>"

definition wideItem :: DraggableDimension where
  "wideItem =
     \<lparr>draggable_page_withMargin =
        \<lparr>area_top = 380, area_right = 1300, area_bottom = 420, area_left = 100,
         area_width = 1200, area_height = 40\<rparr>\<rparr>"

definition exampleDroppable :: DroppableDimension where
  "exampleDroppable =
     \<lparr>droppable_descriptor_id = ''list'',
      droppable_viewport_closestScrollable = Some \<lparr>scrollable_frame = exampleFrame\<rparr>\<rparr>"

definition plainDroppable :: DroppableDimension where
  "plainDroppable =
     \<lparr>droppable_descriptor_id = ''list'',
      droppable_viewport_closestScrollable = None\<rparr>"

definition exampleDrag ::
  "string \<Rightarrow> Position \<Rightarrow> DraggableLocation option \<Rightarrow> Position option \<Rightarrow> DragState" where
  "exampleDrag mode center destination request =
     \<lparr>drag_initial_descriptor_id = ''item'',
      drag_initial_autoScrollMode = mode,
      drag_current_client_selection = \<lparr>pos_x = 10, pos_y = 20\<rparr>,
      drag_current_page_center = center,
      drag_impact_destination = destination,
      drag_scrollJumpRequest = request\<rparr>"

definition exampleState ::
  "string \<Rightarrow> DragState option \<Rightarrow> DraggableDimension \<Rightarrow> DroppableDimension \<Rightarrow> State" where
  "exampleState phase drag item droppable =
     \<lparr>state_phase = phase,
      state_drag = drag,
      state_dimension_draggable = [''item'' \<mapsto> item],
      state_dimension_droppable = [''list'' \<mapsto> droppable]\<rparr>"

text \<open>
  Collaborators that answer the same whatever they are asked: whether the window and
  the droppable can scroll, the two overlaps, and the droppable under the centre.
\<close>

definition exampleEnv ::
  "bool \<Rightarrow> bool \<Rightarrow> Position option \<Rightarrow> Position option \<Rightarrow> DroppableDimension option \<Rightarrow> Env"
  where
  "exampleEnv windowCan droppableCan windowOverlap droppableOverlap over =
     \<lparr>getViewport = exampleViewport,
      getWindowScrollPosition = origin,
      canScrollWindow = (\<lambda>change. windowCan),
      canScrollDroppable = (\<lambda>droppable change. droppableCan),
      getWindowOverlap = (\<lambda>change. windowOverlap),
      getDroppableOverlap = (\<lambda>droppable change. droppableOverlap),
      getScrollableDroppableOver = (\<lambda>target droppables. over)\<rparr>"

section \<open>Properties of double-precision rounding\<close>

lemma minQuantum_pos: "0 < minQuantum"
  by (simp add: minQuantum_def)

lemma ulp_up_spec:
  "0 < q \<Longrightarrow> q * 2 ^ 52 \<le> x \<Longrightarrow>
     \<exists>n. ulp_up q x = q * 2 ^ n \<and> ulp_up q x * 2 ^ 52 \<le> x \<and> x < ulp_up q x * 2 ^ 53"
proof (induction q x rule: ulp_up.induct)
  case (1 q x)
  show ?case
  proof (cases "x < q * 2 ^ 53")
    case True
    then have "ulp_up q x = q" by (simp add: ulp_up.simps [of q x])
    then have "ulp_up q x = q * 2 ^ 0 \<and> ulp_up q x * 2 ^ 52 \<le> x \<and> x < ulp_up q x * 2 ^ 53"
      using True "1.prems" by simp
    then show ?thesis by blast
  next
    case False
    then have stop: "\<not> (q \<le> 0 \<or> x < q * 2 ^ 53)" using "1.prems" by simp
    then have eq: "ulp_up q x = ulp_up (2 * q) x" by (simp add: ulp_up.simps [of q x])
    have "2 * q * 2 ^ 52 \<le> x" using False by simp
    with "1.IH" [OF stop] "1.prems" obtain n where
      n: "ulp_up (2 * q) x = 2 * q * 2 ^ n" "ulp_up (2 * q) x * 2 ^ 52 \<le> x"
         "x < ulp_up (2 * q) x * 2 ^ 53"
      by auto
    have "ulp_up q x = q * 2 ^ Suc n" using n(1) eq by simp
    then show ?thesis using n eq by (metis (no_types))
  qed
qed

lemma ulp_down_spec:
  "q = minQuantum * 2 ^ n \<Longrightarrow> x < q * 2 ^ 53 \<Longrightarrow>
     \<exists>m. ulp_down q x = minQuantum * 2 ^ m \<and> x < ulp_down q x * 2 ^ 53 \<and>
         (ulp_down q x * 2 ^ 52 \<le> x \<or> ulp_down q x = minQuantum)"
proof (induction q x arbitrary: n rule: ulp_down.induct)
  case (1 q x)
  show ?case
  proof (cases "q \<le> minQuantum \<or> q * 2 ^ 52 \<le> x")
    case True
    then have eq: "ulp_down q x = q" by (simp add: ulp_down.simps [of q x])
    have "q * 2 ^ 52 \<le> x \<or> q = minQuantum"
    proof (cases "q \<le> minQuantum")
      case True
      have "minQuantum * 1 \<le> minQuantum * 2 ^ n"
        using minQuantum_pos by (intro mult_left_mono) simp_all
      then show ?thesis using True "1.prems"(1) by simp
    next
      case False
      then show ?thesis using True by simp
    qed
    then show ?thesis using eq "1.prems" by auto
  next
    case False
    then have eq: "ulp_down q x = ulp_down (q / 2) x" by (simp add: ulp_down.simps [of q x])
    have "n \<noteq> 0" using False "1.prems"(1) by (cases n) auto
    then obtain k where k: "n = Suc k" by (cases n) auto
    have half: "q / 2 = minQuantum * 2 ^ k" using "1.prems"(1) k by simp
    have "x < q / 2 * 2 ^ 53" using False by simp
    from "1.IH" [OF False half this] show ?thesis using eq by simp
  qed
qed

lemma ulp_spec:
  "\<exists>m. ulp x = minQuantum * 2 ^ m \<and> \<bar>x\<bar> < ulp x * 2 ^ 53 \<and>
       (ulp x * 2 ^ 52 \<le> \<bar>x\<bar> \<or> ulp x = minQuantum)"
proof (cases "1 \<le> \<bar>x\<bar>")
  case True
  have start: "(1::real) / 2 ^ 52 = minQuantum * 2 ^ 1022" by (simp add: minQuantum_def)
  have "(0::real) < 1 / 2 ^ 52" "1 / 2 ^ 52 * 2 ^ 52 \<le> \<bar>x\<bar>" using True by simp_all
  from ulp_up_spec [OF this] obtain n where
    n: "ulp_up (1 / 2 ^ 52) \<bar>x\<bar> = 1 / 2 ^ 52 * 2 ^ n"
       "ulp_up (1 / 2 ^ 52) \<bar>x\<bar> * 2 ^ 52 \<le> \<bar>x\<bar>"
       "\<bar>x\<bar> < ulp_up (1 / 2 ^ 52) \<bar>x\<bar> * 2 ^ 53"
    by blast
  have "ulp x = minQuantum * 2 ^ (1022 + n)"
    using n(1) True unfolding ulp_def start by (simp add: power_add)
  then show ?thesis using n True unfolding ulp_def by auto
next
  case False
  have start: "(1::real) / 2 ^ 52 = minQuantum * 2 ^ 1022" by (simp add: minQuantum_def)
  have "\<bar>x\<bar> < 1 / 2 ^ 52 * 2 ^ 53" using False by simp
  from ulp_down_spec [OF start this] show ?thesis using False unfolding ulp_def by simp
qed

lemma ulp_pos: "0 < ulp x"
  using ulp_spec [of x] minQuantum_pos by auto

lemma quantum_le:
  assumes q: "q = minQuantum * 2 ^ m" and u: "u = minQuantum * 2 ^ k"
    and upper: "\<bar>x\<bar> < u * 2 ^ 53"
    and lower: "q * 2 ^ 52 \<le> \<bar>x\<bar> \<or> q = minQuantum"
  shows "q \<le> u"
proof (rule ccontr)
  assume "\<not> q \<le> u"
  then have "u < q" by simp
  then have "(2::real) ^ k < 2 ^ m" using q u minQuantum_pos by simp
  then have "k < m" by simp
  then have "Suc k \<le> m" by simp
  then have "(2::real) ^ Suc k \<le> 2 ^ m" by (intro power_increasing) simp_all
  then have "minQuantum * 2 ^ Suc k \<le> minQuantum * 2 ^ m"
    using minQuantum_pos by (intro mult_left_mono) simp_all
  then have twice: "2 * u \<le> q" using q u by simp
  have "minQuantum \<le> u"
  proof -
    have "minQuantum * 1 \<le> minQuantum * 2 ^ k"
      using minQuantum_pos by (intro mult_left_mono) simp_all
    then show ?thesis using u by simp
  qed
  then have "q \<noteq> minQuantum" using twice minQuantum_pos by simp
  then have "q * 2 ^ 52 \<le> \<bar>x\<bar>" using lower by simp
  then have "u * 2 ^ 53 \<le> \<bar>x\<bar>" using twice by simp
  then show False using upper by simp
qed

lemma ulp_unique:
  assumes "q = minQuantum * 2 ^ m" and "\<bar>x\<bar> < q * 2 ^ 53"
    and "q * 2 ^ 52 \<le> \<bar>x\<bar> \<or> q = minQuantum"
  shows "ulp x = q"
proof -
  obtain k where k: "ulp x = minQuantum * 2 ^ k" "\<bar>x\<bar> < ulp x * 2 ^ 53"
      "ulp x * 2 ^ 52 \<le> \<bar>x\<bar> \<or> ulp x = minQuantum"
    using ulp_spec [of x] by blast
  have "q \<le> ulp x" using assms(1) k(1) k(2) assms(3) by (rule quantum_le)
  moreover have "ulp x \<le> q" using k(1) assms(1) assms(2) k(3) by (rule quantum_le)
  ultimately show ?thesis by simp
qed

lemma ulp_mono:
  assumes "\<bar>x\<bar> \<le> \<bar>y\<bar>"
  shows "ulp x \<le> ulp y"
proof -
  obtain m where m: "ulp x = minQuantum * 2 ^ m"
      "ulp x * 2 ^ 52 \<le> \<bar>x\<bar> \<or> ulp x = minQuantum"
    using ulp_spec [of x] by blast
  obtain k where k: "ulp y = minQuantum * 2 ^ k" "\<bar>y\<bar> < ulp y * 2 ^ 53"
    using ulp_spec [of y] by blast
  have "ulp x * 2 ^ 52 \<le> \<bar>y\<bar> \<or> ulp x = minQuantum" using m(2) assms by auto
  with m(1) k show ?thesis by (rule quantum_le)
qed

lemma quantum_ratio:
  assumes "ulp x \<le> ulp y"
  shows "\<exists>j. ulp y = ulp x * 2 ^ j"
proof -
  obtain m where m: "ulp x = minQuantum * 2 ^ m" using ulp_spec [of x] by blast
  obtain k where k: "ulp y = minQuantum * 2 ^ k" using ulp_spec [of y] by blast
  have "(2::real) ^ m \<le> 2 ^ k" using assms m k minQuantum_pos by simp
  then have "m \<le> k" by simp
  then have "ulp y = ulp x * 2 ^ (k - m)" using m k by (simp add: power_add [symmetric])
  then show ?thesis by blast
qed

lemma roundTiesToEven_of_int: "roundTiesToEven (of_int k) = k"
  by (simp add: roundTiesToEven_def)

lemma roundTiesToEven_bounds:
  "\<lfloor>y\<rfloor> \<le> roundTiesToEven y \<and> roundTiesToEven y \<le> \<lfloor>y\<rfloor> + 1"
  by (simp add: roundTiesToEven_def Let_def)

lemma roundTiesToEven_mono:
  assumes "y \<le> z"
  shows "roundTiesToEven y \<le> roundTiesToEven z"
proof (cases "\<lfloor>y\<rfloor> = \<lfloor>z\<rfloor>")
  case True
  then show ?thesis using assms by (auto simp: roundTiesToEven_def Let_def)
next
  case False
  have "\<lfloor>y\<rfloor> \<le> \<lfloor>z\<rfloor>" using assms by (rule floor_mono)
  then have "\<lfloor>y\<rfloor> + 1 \<le> \<lfloor>z\<rfloor>" using False by simp
  then show ?thesis
    using roundTiesToEven_bounds [of y] roundTiesToEven_bounds [of z] by linarith
qed

lemma round64_nonneg:
  assumes "0 \<le> x"
  shows "0 \<le> round64 x"
proof -
  have "0 \<le> x / ulp x" using assms ulp_pos [of x] by simp
  then have "roundTiesToEven 0 \<le> roundTiesToEven (x / ulp x)" by (rule roundTiesToEven_mono)
  then have "0 \<le> roundTiesToEven (x / ulp x)" by (simp add: roundTiesToEven_def)
  then show ?thesis using ulp_pos [of x] by (simp add: round64_def)
qed

lemma round64_mono:
  assumes "0 \<le> x" and "x \<le> y"
  shows "round64 x \<le> round64 y"
proof -
  have le: "ulp x \<le> ulp y" using assms by (intro ulp_mono) simp
  show ?thesis
  proof (cases "ulp x = ulp y")
    case True
    have "x / ulp y \<le> y / ulp y" using assms ulp_pos [of y] by (simp add: divide_right_mono)
    then have "roundTiesToEven (x / ulp y) \<le> roundTiesToEven (y / ulp y)"
      by (rule roundTiesToEven_mono)
    then show ?thesis using True ulp_pos [of y] by (simp add: round64_def)
  next
    case False
    obtain j where j: "ulp y = ulp x * 2 ^ j" using quantum_ratio [OF le] by blast
    have "j \<noteq> 0" using False j by (cases j) auto
    then have "(2::real) ^ 1 \<le> 2 ^ j" by (intro power_increasing) simp_all
    then have "ulp x * 2 \<le> ulp x * 2 ^ j" using ulp_pos [of x] by simp
    then have twice: "2 * ulp x \<le> ulp y" using j by simp
    obtain m where "ulp x = minQuantum * 2 ^ m" using ulp_spec [of x] by blast
    then have "minQuantum \<le> ulp x"
      using minQuantum_pos mult_left_mono [of 1 "2 ^ m" minQuantum] by simp
    then have "ulp y \<noteq> minQuantum" using twice minQuantum_pos by simp
    then have normal: "ulp y * 2 ^ 52 \<le> \<bar>y\<bar>" using ulp_spec [of y] by blast
    have "y = \<bar>y\<bar>" using assms by simp
    then have "2 ^ 52 \<le> y / ulp y"
      using normal ulp_pos [of y] by (simp add: pos_le_divide_eq mult.commute)
    then have "roundTiesToEven (of_int (2 ^ 52)) \<le> roundTiesToEven (y / ulp y)"
      by (intro roundTiesToEven_mono) simp
    then have "2 ^ 52 \<le> roundTiesToEven (y / ulp y)" by (simp only: roundTiesToEven_of_int)
    then have "real_of_int (2 ^ 52) \<le> of_int (roundTiesToEven (y / ulp y))"
      by (simp only: of_int_le_iff)
    then have "(2::real) ^ 52 \<le> of_int (roundTiesToEven (y / ulp y))" by simp
    then have high: "ulp y * 2 ^ 52 \<le> round64 y"
      using ulp_pos [of y] by (simp add: round64_def)
    have "\<bar>x\<bar> < ulp x * 2 ^ 53" using ulp_spec [of x] by blast
    then have "x / ulp x \<le> 2 ^ 53"
      using assms(1) ulp_pos [of x] by (simp add: pos_divide_le_eq mult.commute)
    then have "roundTiesToEven (x / ulp x) \<le> roundTiesToEven (of_int (2 ^ 53))"
      by (intro roundTiesToEven_mono) simp
    then have "roundTiesToEven (x / ulp x) \<le> 2 ^ 53" by (simp only: roundTiesToEven_of_int)
    then have "of_int (roundTiesToEven (x / ulp x)) \<le> real_of_int (2 ^ 53)"
      by (simp only: of_int_le_iff)
    then have "of_int (roundTiesToEven (x / ulp x)) \<le> (2::real) ^ 53" by simp
    then have "round64 x \<le> ulp x * 2 ^ 53"
      using ulp_pos [of x] by (simp add: round64_def)
    also have "\<dots> \<le> ulp y * 2 ^ 52" using twice by simp
    finally show ?thesis using high by simp
  qed
qed

lemma minQuantum_le_pow: "minQuantum \<le> minQuantum * 2 ^ m"
  using minQuantum_pos mult_left_mono [of 1 "2 ^ m" minQuantum] by simp

lemma round64_multiple:
  assumes q: "q = minQuantum * 2 ^ m"
    and n: "0 \<le> n" "n < 2 ^ 53" "2 ^ 52 \<le> n \<or> q = minQuantum"
  shows "round64 (q * of_int n) = q * of_int n"
proof -
  have qpos: "0 < q" using q minQuantum_pos by simp
  have abs: "\<bar>q * of_int n\<bar> = q * of_int n" using qpos n(1) by simp
  have "real_of_int n < real_of_int (2 ^ 53)" using n(2) by (simp only: of_int_less_iff)
  then have upper: "\<bar>q * of_int n\<bar> < q * 2 ^ 53" using qpos abs by simp
  have lower: "q * 2 ^ 52 \<le> \<bar>q * of_int n\<bar> \<or> q = minQuantum"
  proof (cases "q = minQuantum")
    case True
    then show ?thesis by simp
  next
    case False
    then have "2 ^ 52 \<le> n" using n(3) by simp
    then have "real_of_int (2 ^ 52) \<le> real_of_int n" by (simp only: of_int_le_iff)
    then show ?thesis using qpos abs by simp
  qed
  have "ulp (q * of_int n) = q" using q upper lower by (rule ulp_unique)
  then show ?thesis using qpos by (simp add: round64_def roundTiesToEven_of_int)
qed

lemma round64_pow2: "round64 (minQuantum * 2 ^ m) = minQuantum * 2 ^ m"
proof (cases "m < 53")
  case True
  then have "(2::int) ^ m < 2 ^ 53" by (intro power_strict_increasing) simp_all
  then have "round64 (minQuantum * of_int (2 ^ m)) = minQuantum * of_int (2 ^ m)"
    by (intro round64_multiple [where m = 0]) simp_all
  then show ?thesis by simp
next
  case False
  then have "m - 52 + 52 = m" by simp
  moreover have "(2::real) ^ (m - 52 + 52) = 2 ^ (m - 52) * 2 ^ 52" by (rule power_add)
  ultimately have split: "(2::real) ^ m = 2 ^ (m - 52) * 2 ^ 52" by simp
  have "round64 (minQuantum * 2 ^ (m - 52) * of_int (2 ^ 52))
          = minQuantum * 2 ^ (m - 52) * of_int (2 ^ 52)"
    by (intro round64_multiple [where m = "m - 52"]) simp_all
  moreover have "minQuantum * 2 ^ (m - 52) * of_int (2 ^ 52) = minQuantum * 2 ^ m"
    using split by simp
  ultimately show ?thesis by (simp only:)
qed

lemma round64_idem:
  assumes "0 \<le> x"
  shows "round64 (round64 x) = round64 x"
proof -
  obtain m where m: "ulp x = minQuantum * 2 ^ m" "\<bar>x\<bar> < ulp x * 2 ^ 53"
      "ulp x * 2 ^ 52 \<le> \<bar>x\<bar> \<or> ulp x = minQuantum"
    using ulp_spec [of x] by blast
  define n where "n = roundTiesToEven (x / ulp x)"
  have r: "round64 x = ulp x * of_int n" by (simp add: round64_def n_def)
  have "0 \<le> x / ulp x" using assms ulp_pos [of x] by simp
  then have "roundTiesToEven (of_int 0) \<le> n" unfolding n_def by (intro roundTiesToEven_mono) simp
  then have n0: "0 \<le> n" by (simp only: roundTiesToEven_of_int)
  have "x / ulp x \<le> 2 ^ 53"
    using m(2) assms ulp_pos [of x] by (simp add: pos_divide_le_eq mult.commute)
  then have "n \<le> roundTiesToEven (of_int (2 ^ 53))" unfolding n_def by (intro roundTiesToEven_mono) simp
  then have n1: "n \<le> 2 ^ 53" by (simp only: roundTiesToEven_of_int)
  have n2: "2 ^ 52 \<le> n \<or> ulp x = minQuantum"
  proof (cases "ulp x = minQuantum")
    case True
    then show ?thesis by simp
  next
    case False
    then have "ulp x * 2 ^ 52 \<le> x" using m(3) assms by simp
    then have "2 ^ 52 \<le> x / ulp x"
      using ulp_pos [of x] by (simp add: pos_le_divide_eq mult.commute)
    then have "roundTiesToEven (of_int (2 ^ 52)) \<le> n" unfolding n_def by (intro roundTiesToEven_mono) simp
    then have "2 ^ 52 \<le> n" by (simp only: roundTiesToEven_of_int)
    then show ?thesis by simp
  qed
  show ?thesis
  proof (cases "n < 2 ^ 53")
    case True
    have "round64 (ulp x * of_int n) = ulp x * of_int n"
      using m(1) n0 True n2 by (rule round64_multiple)
    then show ?thesis by (simp only: r)
  next
    case False
    then have top: "n = 2 ^ 53" using n1 by simp
    have "round64 (minQuantum * 2 ^ Suc m * of_int (2 ^ 52))
            = minQuantum * 2 ^ Suc m * of_int (2 ^ 52)"
      by (intro round64_multiple [where m = "Suc m"]) simp_all
    moreover have "minQuantum * 2 ^ Suc m * of_int (2 ^ 52) = ulp x * of_int n"
      by (simp add: top m(1))
    ultimately show ?thesis by (simp only: r)
  qed
qed

lemma round64_le:
  assumes "0 \<le> x" and "x \<le> b" and "round64 b = b"
  shows "round64 x \<le> b"
  using round64_mono [OF assms(1,2)] assms(3) by simp

lemma round64_ge:
  assumes "0 \<le> b" and "b \<le> x" and "round64 b = b"
  shows "b \<le> round64 x"
  using round64_mono [OF assms(1,2)] assms(3) by simp

lemma double_gap:
  assumes s: "round64 s = s" and d: "round64 d = d" and pos: "0 < s" and less: "d < s"
  shows "\<exists>k. minQuantum * 2 ^ k \<le> s - d \<and> s < minQuantum * 2 ^ k * 2 ^ 54"
proof -
  obtain m where m: "ulp s = minQuantum * 2 ^ m" "\<bar>s\<bar> < ulp s * 2 ^ 53"
      "ulp s * 2 ^ 52 \<le> \<bar>s\<bar> \<or> ulp s = minQuantum"
    using ulp_spec [of s] by blast
  define ns where "ns = roundTiesToEven (s / ulp s)"
  define nd where "nd = roundTiesToEven (d / ulp d)"
  have srep: "s = ulp s * of_int ns" using s by (simp add: round64_def ns_def)
  have drep: "d = ulp d * of_int nd" using d by (simp add: round64_def nd_def)
  have "0 < ulp s * real_of_int ns" using pos srep by simp
  then have "0 < real_of_int ns" using ulp_pos [of s] by (simp add: zero_less_mult_iff)
  then have "1 \<le> ns" by simp
  then have "1 \<le> real_of_int ns" by simp
  then have s_ge: "ulp s \<le> s" using ulp_pos [of s] srep
    by (metis mult.right_neutral mult_left_mono less_imp_le)
  have upper: "s < ulp s * 2 ^ 53" using m(2) pos by simp
  \<comment> \<open>the distance is at least one quantum of the smaller operand\<close>
  have near: "ulp d \<le> s - d" if "0 < d"
  proof -
    have "ulp d \<le> ulp s" using that less by (intro ulp_mono) simp
    then obtain j where j: "ulp s = ulp d * 2 ^ j" using quantum_ratio by blast
    define ud where "ud = ulp d"
    have "s = ud * 2 ^ j * of_int ns" using srep j by (simp add: ud_def)
    moreover have "d = ud * of_int nd" using drep by (simp add: ud_def)
    ultimately have "s - d = ud * of_int (2 ^ j * ns - nd)" by (simp add: algebra_simps)
    then have "s - d = ulp d * of_int (2 ^ j * ns - nd)" by (simp only: ud_def)
    moreover have "0 < s - d" using less by simp
    ultimately have "0 < real_of_int (2 ^ j * ns - nd)"
      using ulp_pos [of d] by (simp add: zero_less_mult_iff)
    then have "1 \<le> 2 ^ j * ns - nd" by linarith
    then have "1 \<le> real_of_int (2 ^ j * ns - nd)" by linarith
    then have "ulp d * 1 \<le> ulp d * real_of_int (2 ^ j * ns - nd)"
      using ulp_pos [of d] by (intro mult_left_mono) simp_all
    then show ?thesis using \<open>s - d = ulp d * of_int (2 ^ j * ns - nd)\<close> by simp
  qed
  show ?thesis
  proof (cases "ulp s = minQuantum")
    case True
    have "minQuantum \<le> s - d"
    proof (cases "0 < d")
      case True
      obtain k where "ulp d = minQuantum * 2 ^ k" using ulp_spec [of d] by blast
      then have "minQuantum \<le> ulp d" using minQuantum_le_pow by simp
      then show ?thesis using near [OF True] by simp
    next
      case False
      then show ?thesis using s_ge \<open>ulp s = minQuantum\<close> by simp
    qed
    moreover have "s < minQuantum * 2 ^ 54" using upper True minQuantum_pos by simp
    ultimately have "minQuantum * 2 ^ 0 \<le> s - d \<and> s < minQuantum * 2 ^ 0 * 2 ^ 54" by simp
    then show ?thesis by blast
  next
    case False
    then have normal: "ulp s * 2 ^ 52 \<le> s" using m(3) pos by simp
    have "m \<noteq> 0" using False m(1) by (cases m) auto
    then obtain k where k: "m = Suc k" by (cases m) auto
    have half: "minQuantum * 2 ^ k = ulp s / 2" using m(1) k by simp
    have "ulp s / 2 \<le> s - d"
    proof (cases "0 < d")
      case False
      then show ?thesis using normal ulp_pos [of s] by simp
    next
      case True
      have "ulp d \<le> ulp s" using True less by (intro ulp_mono) simp
      then obtain j where j: "ulp s = ulp d * 2 ^ j" using quantum_ratio by blast
      show ?thesis
      proof (cases "j \<le> 1")
        case True
        then have "j = 0 \<or> j = 1" by auto
        then have "ulp s / 2 \<le> ulp d" using j ulp_pos [of d] by auto
        then show ?thesis using near [OF \<open>0 < d\<close>] by simp
      next
        case False
        then have "2 \<le> j" by simp
        then have "(2::real) ^ 2 \<le> 2 ^ j" by (intro power_increasing) simp_all
        then have "ulp d * 2 ^ 2 \<le> ulp d * 2 ^ j"
          using ulp_pos [of d] by (intro mult_left_mono) simp_all
        then have "ulp d * 4 \<le> ulp s" using j by simp
        moreover have "d < ulp d * 2 ^ 53" using ulp_spec [of d] \<open>0 < d\<close> by auto
        ultimately have "d < ulp s * 2 ^ 51" by simp
        then show ?thesis using normal ulp_pos [of s] by simp
      qed
    qed
    then have "minQuantum * 2 ^ k \<le> s - d" by (simp only: half)
    moreover have "s < minQuantum * 2 ^ k * 2 ^ 54" using upper half by simp
    ultimately show ?thesis by blast
  qed
qed

section \<open>Properties of the speed function\<close>

lemma getPixelThresholds_plane_pos:
  assumes "\<not> distance \<ge> startFrom (getPixelThresholds container axis)"
    and "\<not> distance \<le> maxSpeedAt (getPixelThresholds container axis)"
  shows "0 < accelerationPlane (getPixelThresholds container axis)"
  using assms
  by (simp add: getPixelThresholds_def Let_def config_startFrom_def config_maxSpeedAt_def)

lemma getSpeed_nonneg: "0 \<le> getSpeed distance thresholds"
  by (simp add: getSpeed_def Let_def config_maxScrollSpeed_def config_ease_def)

lemmas speed_defs = getSpeed_def getPixelThresholds_def vertical_def horizontal_def Let_def
  config_startFrom_def config_maxSpeedAt_def config_maxScrollSpeed_def config_ease_def


subsection \<open>The speed function in double precision\<close>

lemmas round64_eval = round64_def roundTiesToEven_def ulp_def ulp_up.simps ulp_down.simps
  minQuantum_def

lemma round64_0 [simp]: "round64 0 = 0" by (simp add: round64_def roundTiesToEven_def)
lemma round64_1 [simp]: "round64 1 = 1" by (simp add: round64_eval)
lemma round64_28 [simp]: "round64 28 = 28" by (simp add: round64_eval)
lemma round64_quarter [simp]: "round64 (1 / 4) = 1 / 4" by (simp add: round64_eval)
lemma round64_twentieth [simp]:
  "round64 (1 / 20) = 3602879701896397 / 72057594037927936"
  by (simp add: round64_eval)
lemma round64_200 [simp]: "round64 200 = 200" by (simp add: round64_eval)
lemma round64_160 [simp]: "round64 160 = 160" by (simp add: round64_eval)
lemma round64_800_twentieth [simp]:
  "round64 (90071992547409925 / 2251799813685248) = 40"
  by (simp add: round64_eval)

lemma exampleViewport_thresholds64: "getPixelThresholds64 exampleViewport vertical
   = \<lparr>startFrom = 200, maxSpeedAt = 40, accelerationPlane = 160\<rparr>"
  by (simp add: getPixelThresholds64_def exampleViewport_def vertical_def config_startFrom_def
      config_maxSpeedAt_def Let_def)

lemma tiny_pow2: "(1::real) / 2 ^ 54 = minQuantum * 2 ^ 1020" by (simp add: minQuantum_def)
lemma tinier_pow2: "(1::real) / 2 ^ 108 = minQuantum * 2 ^ 966" by (simp add: minQuantum_def)

lemma round64_tiny: "round64 (1 / 2 ^ 54) = 1 / 2 ^ 54"
  unfolding tiny_pow2 by (rule round64_pow2)

lemma round64_tinier: "round64 (1 / 2 ^ 108) = 1 / 2 ^ 108"
  unfolding tinier_pow2 by (rule round64_pow2)

lemma getSpeed64_ramp:
  assumes sf: "round64 sf = sf" and d: "round64 d = d" and ms: "0 \<le> ms"
    and between: "ms < d" "d < sf"
  defines "p \<equiv> round64 (round64 (sf - d) / round64 (sf - ms))"
  shows "1 / 2 ^ 54 \<le> p \<and> p \<le> 1"
proof -
  have pos: "0 < sf" using ms between by simp
  obtain k where k: "minQuantum * 2 ^ k \<le> sf - d" "sf < minQuantum * 2 ^ k * 2 ^ 54"
    using double_gap [OF sf d pos between(2)] by blast
  define g where "g = minQuantum * 2 ^ k"
  have g: "0 < g" "round64 g = g" "g \<le> sf - d" "sf < g * 2 ^ 54"
    using k minQuantum_pos by (simp_all add: g_def round64_pow2)
  define a where "a = round64 (sf - d)"
  define ap where "ap = round64 (sf - ms)"
  have a_ge: "g \<le> a" unfolding a_def using g by (intro round64_ge) simp_all
  have a_le: "a \<le> ap" unfolding a_def ap_def using between by (intro round64_mono) simp_all
  have ap_le: "ap \<le> sf" unfolding ap_def using ms between sf by (intro round64_le) simp_all
  have a_pos: "0 < a" using g(1) a_ge by simp
  have ap_pos: "0 < ap" using a_pos a_le by simp
  have ratio_le: "a / ap \<le> 1" using a_le ap_pos by simp
  have "1 / 2 ^ 54 < g / sf" using g(4) pos by (simp add: field_simps)
  then have "1 / 2 ^ 54 \<le> g / sf" by (rule less_imp_le)
  moreover have "g / sf \<le> a / ap" using a_ge ap_le g(1) ap_pos pos by (intro frac_le) simp_all
  ultimately have ratio_ge: "1 / 2 ^ 54 \<le> a / ap" by (rule order_trans)
  have "0 \<le> a / ap" using a_pos ap_pos by simp
  then have "round64 (a / ap) \<le> 1" using ratio_le by (intro round64_le) simp_all
  moreover have "1 / 2 ^ 54 \<le> round64 (a / ap)"
    using ratio_ge by (intro round64_ge round64_tiny) simp_all
  ultimately show ?thesis by (simp add: p_def a_def ap_def)
qed

lemma getSpeed64_ramp_bounds:
  assumes "1 / 2 ^ 54 \<le> p" and "p \<le> 1"
  shows "0 < round64 (28 * round64 (p ^ 2)) \<and> round64 (28 * round64 (p ^ 2)) \<le> 28"
proof -
  have p0: "0 \<le> p" using assms(1) by (rule order_trans [rotated]) simp
  have "(1 / 2 ^ 54) ^ 2 \<le> p ^ 2" using assms(1) by (intro power_mono) simp_all
  moreover have "((1::real) / 2 ^ 54) ^ 2 = 1 / 2 ^ 108" by (simp add: power_divide)
  ultimately have sq_ge: "1 / 2 ^ 108 \<le> p ^ 2" by (simp only:)
  have sq_le: "p ^ 2 \<le> 1" using p0 assms(2) by (simp add: power_le_one_iff)
  define e where "e = round64 (p ^ 2)"
  have e_ge: "1 / 2 ^ 108 \<le> e"
    unfolding e_def using sq_ge by (intro round64_ge round64_tinier) simp_all
  have e_le: "e \<le> 1" unfolding e_def using sq_le by (intro round64_le) simp_all
  have "1 / 2 ^ 108 \<le> 28 * e" using e_ge by simp
  then have "1 / 2 ^ 108 \<le> round64 (28 * e)" by (intro round64_ge round64_tinier) simp_all
  then have "0 < round64 (28 * e)" by (rule less_le_trans [rotated]) simp
  moreover have "round64 (28 * e) \<le> 28"
    using e_le e_ge by (intro round64_le) simp_all
  ultimately show ?thesis by (simp add: e_def)
qed

lemma isDouble_round64:
  assumes "0 \<le> x" and "x \<le> b" and "isDouble b"
  shows "isDouble (round64 x)"
proof -
  have "round64 x \<le> b" using assms by (intro round64_le) (simp_all add: isDouble_def)
  moreover have "0 \<le> round64 x" using assms(1) by (rule round64_nonneg)
  moreover have "\<bar>b\<bar> < overflowThreshold" using assms(3) by (simp add: isDouble_def)
  ultimately have "\<bar>round64 x\<bar> < overflowThreshold" by simp
  then show ?thesis using round64_idem [OF assms(1)] by (simp add: isDouble_def)
qed

lemma isDouble_0: "isDouble 0" by (simp add: isDouble_def overflowThreshold_def)
lemma isDouble_28: "isDouble 28" by (simp add: isDouble_def overflowThreshold_def)


lemma justAboveMaxSpeedAt_value: "justAboveMaxSpeedAt = 40 + 1 / 2 ^ 47"
  by (simp add: justAboveMaxSpeedAt_def round64_eval)

lemma isDouble_justAboveMaxSpeedAt: "isDouble justAboveMaxSpeedAt"
  by (simp add: justAboveMaxSpeedAt_value isDouble_def overflowThreshold_def round64_eval)

lemma isDouble_800: "isDouble 800"
  by (simp add: isDouble_def overflowThreshold_def round64_eval)

lemma getSpeed64_justAboveMaxSpeedAt:
  "getSpeed64 justAboveMaxSpeedAt
     \<lparr>startFrom = 200, maxSpeedAt = 40, accelerationPlane = 160\<rparr> = 28"
  by (simp only: getSpeed64_def Let_def config_ease64_def config_maxScrollSpeed_def
      justAboveMaxSpeedAt_value)
    (simp add: round64_eval)

lemma getSpeed64_100:
  "getSpeed64 100 \<lparr>startFrom = 200, maxSpeedAt = 40, accelerationPlane = 160\<rparr> = 175 / 16"
  by (simp only: getSpeed64_def Let_def config_ease64_def config_maxScrollSpeed_def)
    (simp add: round64_eval power2_eq_square)

lemma ulp_subnormal:
  assumes "\<bar>x\<bar> < minQuantum * 2 ^ 53"
  shows "ulp x = minQuantum"
  by (rule ulp_unique [where m = 0]) (use assms in simp_all)

lemma round64_subnormal:
  assumes "\<bar>x\<bar> < minQuantum * 2 ^ 53"
  shows "round64 x = minQuantum * of_int (roundTiesToEven (x / minQuantum))"
  by (simp add: round64_def ulp_subnormal [OF assms])

lemma tinyViewport_thresholds:
  "getPixelThresholds64 tinyViewport vertical
     = \<lparr>startFrom = 0, maxSpeedAt = 0, accelerationPlane = 0\<rparr>"
proof -
  have a: "round64 (minQuantum * (1 / 4)) = 0"
    using minQuantum_pos by (subst round64_subnormal) (simp_all add: roundTiesToEven_def)
  have b: "round64 (minQuantum * (3602879701896397 / 72057594037927936)) = 0"
    using minQuantum_pos by (subst round64_subnormal) (simp_all add: roundTiesToEven_def)
  show ?thesis
    using a b
    by (simp add: getPixelThresholds64_def tinyViewport_def vertical_def config_startFrom_def
        config_maxSpeedAt_def Let_def)
qed

lemma isDouble_minQuantum: "isDouble minQuantum"
  using round64_pow2 [of 0] by (simp add: isDouble_def) (simp add: minQuantum_def overflowThreshold_def)


text \<open>
  The two thresholds differ for every size that is a double of at least
  \<open>2 ^ (- 1019)\<close>: a quarter and an eighth of such a size are doubles, and the
  eighth lies between the thresholds.
\<close>

lemma round64_scale_down:
  assumes fixed: "round64 x = x" and large: "minQuantum * 2 ^ 55 \<le> x" and j: "j \<le> 3"
  shows "round64 (x / 2 ^ j) = x / 2 ^ j"
proof -
  obtain m where m: "ulp x = minQuantum * 2 ^ m" "\<bar>x\<bar> < ulp x * 2 ^ 53"
      "ulp x * 2 ^ 52 \<le> \<bar>x\<bar> \<or> ulp x = minQuantum"
    using ulp_spec [of x] by blast
  have pos: "0 < x" using large minQuantum_pos
    by (intro less_le_trans [of 0 "minQuantum * 2 ^ 55" x]) simp_all
  have "minQuantum * 2 ^ 55 < minQuantum * 2 ^ m * 2 ^ 53" using large m(1,2) pos by simp
  then have "(2::real) ^ 55 < 2 ^ (m + 53)" using minQuantum_pos by (simp add: power_add)
  then have "55 < m + 53" by (simp only: power_strict_increasing_iff one_less_numeral_iff semiring_norm)
  then have m3: "3 \<le> m" by simp
  then have "(2::real) ^ 3 \<le> 2 ^ m" by (intro power_increasing) simp_all
  then have "minQuantum * 2 ^ 3 \<le> minQuantum * 2 ^ m"
    using minQuantum_pos by (intro mult_left_mono) simp_all
  then have "ulp x \<noteq> minQuantum" using m(1) minQuantum_pos by simp
  then have normal: "ulp x * 2 ^ 52 \<le> x" using m(3) pos by simp
  define n where "n = roundTiesToEven (x / ulp x)"
  have rep: "x = ulp x * of_int n" using fixed by (simp add: round64_def n_def)
  have "ulp x * 2 ^ 52 \<le> ulp x * real_of_int n" "ulp x * real_of_int n < ulp x * 2 ^ 53"
    using normal m(2) pos rep by simp_all
  then have "(2::real) ^ 52 \<le> real_of_int n" "real_of_int n < 2 ^ 53"
    using ulp_pos [of x] by simp_all
  then have "real_of_int (2 ^ 52) \<le> real_of_int n" "real_of_int n < real_of_int (2 ^ 53)"
    by simp_all
  then have n: "2 ^ 52 \<le> n" "n < 2 ^ 53" by (simp_all only: of_int_le_iff of_int_less_iff)
  have "m - j + j = m" using m3 j by simp
  moreover have "(2::real) ^ (m - j + j) = 2 ^ (m - j) * 2 ^ j" by (rule power_add)
  ultimately have "(2::real) ^ m = 2 ^ (m - j) * 2 ^ j" by simp
  then have scaled: "x / 2 ^ j = minQuantum * 2 ^ (m - j) * of_int n"
    by (subst rep) (simp add: m(1))
  have "round64 (minQuantum * 2 ^ (m - j) * of_int n) = minQuantum * 2 ^ (m - j) * of_int n"
    using n by (intro round64_multiple [where m = "m - j"]) simp_all
  then show ?thesis by (simp only: scaled)
qed

lemma thresholds64_distinct:
  assumes "round64 (axis_size axis container) = axis_size axis container"
    and "minQuantum * 2 ^ 55 \<le> axis_size axis container"
  shows "maxSpeedAt (getPixelThresholds64 container axis)
           < startFrom (getPixelThresholds64 container axis)"
proof -
  let ?s = "axis_size axis container"
  have pos: "0 < ?s" using assms(2) minQuantum_pos
    by (intro less_le_trans [of 0 "minQuantum * 2 ^ 55" ?s]) simp_all
  have quarter: "round64 (?s / 2 ^ 2) = ?s / 2 ^ 2" and eighth: "round64 (?s / 2 ^ 3) = ?s / 2 ^ 3"
    using assms by (intro round64_scale_down; simp)+
  have "round64 (?s * (3602879701896397 / 72057594037927936)) \<le> ?s / 2 ^ 3"
    using pos eighth by (intro round64_le) simp_all
  moreover have "?s / 2 ^ 3 < ?s / 2 ^ 2" using pos by simp
  ultimately show ?thesis
    using quarter
    by (simp add: getPixelThresholds64_def Let_def config_startFrom_def config_maxSpeedAt_def)
qed

text \<open>
  C2, as stated, fails in double arithmetic. With the viewport of height 800 the
  thresholds are 200, 40 and 160; at the next double above 40, strictly between the
  thresholds, the difference \<open>200 - d\<close> rounds to 160, the percentage is 1 and the
  speed is 28, not less. With a viewport whose height is the smallest positive double
  both thresholds round to 0, and the distance 0, which is at most \<open>maxSpeedAt\<close>, has
  speed 0, not 28.
\<close>

theorem getSpeed64_by_region_counterexample:
  "isDouble (area_height exampleViewport) \<and> 0 < area_height exampleViewport \<and>
   isDouble justAboveMaxSpeedAt \<and>
   maxSpeedAt (getPixelThresholds64 exampleViewport vertical) < justAboveMaxSpeedAt \<and>
   justAboveMaxSpeedAt < startFrom (getPixelThresholds64 exampleViewport vertical) \<and>
   getSpeed64 justAboveMaxSpeedAt (getPixelThresholds64 exampleViewport vertical) = 28 \<and>
   isDouble (area_height tinyViewport) \<and> 0 < area_height tinyViewport \<and>
   isDouble 0 \<and> 0 \<le> maxSpeedAt (getPixelThresholds64 tinyViewport vertical) \<and>
   getSpeed64 0 (getPixelThresholds64 tinyViewport vertical) = 0"
proof -
  have big: "isDouble (area_height exampleViewport)" "0 < area_height exampleViewport"
    using isDouble_800 by (simp_all add: exampleViewport_def)
  have between:
    "maxSpeedAt (getPixelThresholds64 exampleViewport vertical) < justAboveMaxSpeedAt"
    "justAboveMaxSpeedAt < startFrom (getPixelThresholds64 exampleViewport vertical)"
    by (simp_all add: exampleViewport_thresholds64 justAboveMaxSpeedAt_value)
  have top: "getSpeed64 justAboveMaxSpeedAt (getPixelThresholds64 exampleViewport vertical) = 28"
    by (simp only: exampleViewport_thresholds64 getSpeed64_justAboveMaxSpeedAt)
  have tiny: "isDouble (area_height tinyViewport)" "0 < area_height tinyViewport"
    using isDouble_minQuantum minQuantum_pos by (simp_all add: tinyViewport_def)
  have zero: "0 \<le> maxSpeedAt (getPixelThresholds64 tinyViewport vertical)"
    "getSpeed64 0 (getPixelThresholds64 tinyViewport vertical) = 0"
    by (simp_all add: tinyViewport_thresholds getSpeed64_def)
  show ?thesis
    using big isDouble_justAboveMaxSpeedAt between top tiny isDouble_0 zero by blast
qed


text \<open>
  C2, amended: for a container whose size is a positive double, with thresholds
  computed in double arithmetic (\<open>startFrom\<close> the rounded product of the size and
  0.25, \<open>maxSpeedAt\<close> the rounded product of the size and the double 0.05) such that
  \<open>maxSpeedAt < startFrom\<close> (as holds by \<open>thresholds64_distinct\<close> for every size of
  at least \<open>2 ^ (- 1019)\<close>), and for every double \<open>d\<close>: at or beyond \<open>startFrom\<close> the
  speed is 0; at or below \<open>maxSpeedAt\<close> it is 28; strictly between it is 28 times the
  eased percentage, each operation rounded, and \<open>0 < getSpeed d \<le> 28\<close>. The
  thresholds and the speed are doubles below \<open>2 ^ 1024\<close>: nothing overflows.
\<close>

theorem getSpeed64_by_region:
  assumes size: "isDouble (axis_size axis container)" "0 < axis_size axis container"
    and t: "t = getPixelThresholds64 container axis"
    and distinct: "maxSpeedAt t < startFrom t"
    and d: "isDouble d"
  shows "startFrom t = round64 (axis_size axis container * 0.25) \<and>
     maxSpeedAt t = round64 (axis_size axis container * round64 0.05) \<and>
     (d \<ge> startFrom t \<longrightarrow> getSpeed64 d t = 0) \<and>
     (d \<le> maxSpeedAt t \<longrightarrow> getSpeed64 d t = 28) \<and>
     (maxSpeedAt t < d \<and> d < startFrom t \<longrightarrow>
        getSpeed64 d t =
          round64 (28 * config_ease64
            (round64 (round64 (startFrom t - d) / accelerationPlane t))) \<and>
        0 < getSpeed64 d t \<and> getSpeed64 d t \<le> 28) \<and>
     isDouble (startFrom t) \<and> isDouble (maxSpeedAt t) \<and>
     isDouble (accelerationPlane t) \<and> isDouble (getSpeed64 d t)"
proof -
  let ?s = "axis_size axis container"
  have sf: "startFrom t = round64 (?s * 0.25)" and ms: "maxSpeedAt t = round64 (?s * round64 0.05)"
    and ap: "accelerationPlane t = round64 (startFrom t - maxSpeedAt t)"
    using t by (simp_all add: getPixelThresholds64_def Let_def config_startFrom_def
        config_maxSpeedAt_def)
  have "0 \<le> ?s * 0.25" "?s * 0.25 \<le> ?s" using size(2) by simp_all
  then have sf_double: "isDouble (startFrom t)"
    unfolding sf using size(1) by (rule isDouble_round64)
  have c: "0 \<le> round64 0.05" "round64 0.05 \<le> 1"
    by (intro round64_nonneg, simp) (intro round64_le, simp_all)
  then have "0 \<le> ?s * round64 0.05" "?s * round64 0.05 \<le> ?s"
    using size(2) by (simp_all add: mult_left_le)
  then have ms_double: "isDouble (maxSpeedAt t)"
    unfolding ms using size(1) by (rule isDouble_round64)
  have ms_nonneg: "0 \<le> maxSpeedAt t"
    unfolding ms using \<open>0 \<le> ?s * round64 0.05\<close> by (rule round64_nonneg)
  have "0 \<le> startFrom t - maxSpeedAt t" "startFrom t - maxSpeedAt t \<le> startFrom t"
    using distinct ms_nonneg by simp_all
  then have ap_double: "isDouble (accelerationPlane t)"
    unfolding ap using sf_double by (rule isDouble_round64)
  have far: "getSpeed64 d t = 0" if "d \<ge> startFrom t" using that by (simp add: getSpeed64_def)
  have near: "getSpeed64 d t = 28" if "d \<le> maxSpeedAt t"
    using that distinct by (simp add: getSpeed64_def config_maxScrollSpeed_def)
  have mid: "getSpeed64 d t =
          round64 (28 * config_ease64
            (round64 (round64 (startFrom t - d) / accelerationPlane t))) \<and>
        0 < getSpeed64 d t \<and> getSpeed64 d t \<le> 28 \<and> isDouble (getSpeed64 d t)"
    if b: "maxSpeedAt t < d \<and> d < startFrom t"
  proof -
    define p where "p = round64 (round64 (startFrom t - d) / accelerationPlane t)"
    have eq: "getSpeed64 d t = round64 (28 * config_ease64 p)"
      using b by (simp add: getSpeed64_def Let_def config_maxScrollSpeed_def p_def)
    have sf_fix: "round64 (startFrom t) = startFrom t"
      using sf_double by (simp add: isDouble_def)
    have d_fix: "round64 d = d" using d by (simp add: isDouble_def)
    have p: "1 / 2 ^ 54 \<le> p \<and> p \<le> 1"
      unfolding p_def ap using sf_fix d_fix ms_nonneg b by (intro getSpeed64_ramp) simp_all
    then have bounds: "0 < round64 (28 * round64 (p ^ 2)) \<and> round64 (28 * round64 (p ^ 2)) \<le> 28"
      by (intro getSpeed64_ramp_bounds) simp_all
    have "0 \<le> p" using p by (intro order_trans [of 0 "1 / 2 ^ 54" p]) simp_all
    then have "0 \<le> round64 (p ^ 2)" by (intro round64_nonneg) simp
    moreover have "round64 (p ^ 2) \<le> 1"
      using p \<open>0 \<le> p\<close> by (intro round64_le) (simp_all add: power_le_one_iff)
    ultimately have "isDouble (round64 (28 * round64 (p ^ 2)))"
      by (intro isDouble_round64 [where b = 28] isDouble_28) simp_all
    then show ?thesis using bounds eq by (simp add: config_ease64_def p_def)
  qed
  have speed_double: "isDouble (getSpeed64 d t)"
  proof (cases "d \<ge> startFrom t")
    case True
    then show ?thesis using far isDouble_0 by simp
  next
    case f: False
    show ?thesis
    proof (cases "d \<le> maxSpeedAt t")
      case True
      then show ?thesis using near isDouble_28 by simp
    next
      case False
      then have "maxSpeedAt t < d \<and> d < startFrom t" using f by simp
      from mid [OF this] show ?thesis by blast
    qed
  qed
  show ?thesis
    using sf ms far near mid sf_double ms_double ap_double speed_double by blast
qed

theorem getSpeed64_by_region_witness:
  "isDouble (axis_size vertical exampleViewport) \<and> 0 < axis_size vertical exampleViewport \<and>
   maxSpeedAt (getPixelThresholds64 exampleViewport vertical)
     < startFrom (getPixelThresholds64 exampleViewport vertical) \<and>
   isDouble 300 \<and> getSpeed64 300 (getPixelThresholds64 exampleViewport vertical) = 0 \<and>
   isDouble 10 \<and> getSpeed64 10 (getPixelThresholds64 exampleViewport vertical) = 28 \<and>
   isDouble 100 \<and> getSpeed64 100 (getPixelThresholds64 exampleViewport vertical) = 175 / 16 \<and>
   0 < getSpeed64 100 (getPixelThresholds64 exampleViewport vertical) \<and>
   getSpeed64 100 (getPixelThresholds64 exampleViewport vertical) \<le> 28"
proof -
  have size: "isDouble (axis_size vertical exampleViewport)"
      "0 < axis_size vertical exampleViewport"
    using isDouble_800 by (simp_all add: vertical_def exampleViewport_def)
  have distinct: "maxSpeedAt (getPixelThresholds64 exampleViewport vertical)
     < startFrom (getPixelThresholds64 exampleViewport vertical)"
    by (simp add: exampleViewport_thresholds64)
  have doubles: "isDouble 300" "isDouble 10" "isDouble 100"
    by (simp_all add: isDouble_def overflowThreshold_def round64_eval)
  note regions = getSpeed64_by_region [OF size refl distinct]
  have ramp: "getSpeed64 100 (getPixelThresholds64 exampleViewport vertical) = 175 / 16"
    by (simp only: exampleViewport_thresholds64 getSpeed64_100)
  have far: "getSpeed64 300 (getPixelThresholds64 exampleViewport vertical) = 0"
    using regions [OF doubles(1)] by (simp add: exampleViewport_thresholds64)
  have near: "getSpeed64 10 (getPixelThresholds64 exampleViewport vertical) = 28"
    using regions [OF doubles(2)] by (simp add: exampleViewport_thresholds64)
  have mid: "0 < getSpeed64 100 (getPixelThresholds64 exampleViewport vertical) \<and>
      getSpeed64 100 (getPixelThresholds64 exampleViewport vertical) \<le> 28"
    using regions [OF doubles(3)] by (simp add: exampleViewport_thresholds64)
  show ?thesis using size distinct doubles far near ramp mid by blast
qed

subsection \<open>The speed function over the reals\<close>




section \<open>Properties of the required-scroll solver\<close>

lemma getRequiredScroll_components:
  "getRequiredScroll container center =
     (let y = (if area_bottom container - pos_y center < pos_y center - area_top container
               then getSpeed (area_bottom container - pos_y center)
                      (getPixelThresholds container vertical)
               else - getSpeed (pos_y center - area_top container)
                      (getPixelThresholds container vertical));
          x = (if area_right container - pos_x center < pos_x center - area_left container
               then getSpeed (area_right container - pos_x center)
                      (getPixelThresholds container horizontal)
               else - getSpeed (pos_x center - area_left container)
                      (getPixelThresholds container horizontal))
      in if x = 0 \<and> y = 0 then None else Some \<lparr>pos_x = x, pos_y = y\<rparr>)"
  by (simp add: getRequiredScroll_def Let_def isEqual_def origin_def)

lemma example_bottom_scroll:
  "getRequiredScroll exampleViewport \<lparr>pos_x = 500, pos_y = 790\<rparr>
     = Some \<lparr>pos_x = 0, pos_y = 28\<rparr>"
  by (simp add: getRequiredScroll_components exampleViewport_def speed_defs)

lemma example_left_scroll:
  "getRequiredScroll exampleViewport \<lparr>pos_x = 100, pos_y = 400\<rparr>
     = Some \<lparr>pos_x = - (63 / 4), pos_y = 0\<rparr>"
  by (simp add: getRequiredScroll_components exampleViewport_def speed_defs power2_eq_square)

lemma example_no_scroll:
  "getRequiredScroll exampleViewport \<lparr>pos_x = 500, pos_y = 400\<rparr> = None"
  by (simp add: getRequiredScroll_components exampleViewport_def speed_defs)

text \<open>
  C1: with the four edge distances and, per axis, the speed of the nearer edge's
  distance, \<open>getRequiredScroll\<close> returns none exactly when both speeds are zero;
  a returned vector has, on each axis, the speed as its magnitude, with the positive
  sign when the centre is nearer the bottom (right) edge and the negative sign when it
  is nearer the top (left) edge.
\<close>

theorem getRequiredScroll_none_iff_and_sign:
  assumes "dTop = pos_y center - area_top container"
    and "dRight = area_right container - pos_x center"
    and "dBottom = area_bottom container - pos_y center"
    and "dLeft = pos_x center - area_left container"
    and "speedY = (if dBottom < dTop
                   then getSpeed dBottom (getPixelThresholds container vertical)
                   else getSpeed dTop (getPixelThresholds container vertical))"
    and "speedX = (if dRight < dLeft
                   then getSpeed dRight (getPixelThresholds container horizontal)
                   else getSpeed dLeft (getPixelThresholds container horizontal))"
  shows "(getRequiredScroll container center = None \<longleftrightarrow> speedX = 0 \<and> speedY = 0) \<and>
         (\<forall>v. getRequiredScroll container center = Some v \<longrightarrow>
            \<bar>pos_x v\<bar> = speedX \<and> \<bar>pos_y v\<bar> = speedY \<and>
            (dBottom < dTop \<longrightarrow> pos_y v = speedY \<and> 0 \<le> pos_y v) \<and>
            (dTop < dBottom \<longrightarrow> pos_y v = - speedY \<and> pos_y v \<le> 0) \<and>
            (dRight < dLeft \<longrightarrow> pos_x v = speedX \<and> 0 \<le> pos_x v) \<and>
            (dLeft < dRight \<longrightarrow> pos_x v = - speedX \<and> pos_x v \<le> 0))"
proof -
  have sy: "0 \<le> speedY" and sx: "0 \<le> speedX"
    using assms(5,6) by (simp_all add: getSpeed_nonneg)
  show ?thesis
    using sx sy unfolding getRequiredScroll_components Let_def assms(5,6) assms(1-4)
    by (auto split: if_splits)
qed

theorem getRequiredScroll_none_iff_and_sign_witness:
  "getRequiredScroll exampleViewport \<lparr>pos_x = 500, pos_y = 400\<rparr> = None \<and>
   getSpeed 500 (getPixelThresholds exampleViewport horizontal) = 0 \<and>
   getSpeed 400 (getPixelThresholds exampleViewport vertical) = 0 \<and>
   getRequiredScroll exampleViewport \<lparr>pos_x = 500, pos_y = 790\<rparr>
     = Some \<lparr>pos_x = 0, pos_y = 28\<rparr> \<and>
   area_bottom exampleViewport - 790 < 790 - area_top exampleViewport \<and>
   getSpeed 10 (getPixelThresholds exampleViewport vertical) = 28 \<and>
   getRequiredScroll exampleViewport \<lparr>pos_x = 100, pos_y = 400\<rparr>
     = Some \<lparr>pos_x = - (63 / 4), pos_y = 0\<rparr> \<and>
   100 - area_left exampleViewport < area_right exampleViewport - 100 \<and>
   getSpeed 100 (getPixelThresholds exampleViewport horizontal) = 63 / 4"
proof -
  note solver = getRequiredScroll_none_iff_and_sign [OF refl refl refl refl refl refl]
  have none: "getSpeed 500 (getPixelThresholds exampleViewport horizontal) = 0 \<and>
      getSpeed 400 (getPixelThresholds exampleViewport vertical) = 0"
    using solver [of exampleViewport "\<lparr>pos_x = 500, pos_y = 400\<rparr>", THEN conjunct1]
      example_no_scroll
    by (simp add: exampleViewport_def)
  have bottom: "getSpeed 10 (getPixelThresholds exampleViewport vertical) = 28"
    using solver [of exampleViewport "\<lparr>pos_x = 500, pos_y = 790\<rparr>", THEN conjunct2,
        rule_format, OF example_bottom_scroll]
    by (simp add: exampleViewport_def)
  have left: "getSpeed 100 (getPixelThresholds exampleViewport horizontal) = 63 / 4"
    using solver [of exampleViewport "\<lparr>pos_x = 100, pos_y = 400\<rparr>", THEN conjunct2,
        rule_format, OF example_left_scroll]
    by (simp add: exampleViewport_def)
  show ?thesis
    using none bottom left example_no_scroll example_bottom_scroll example_left_scroll
    by (simp add: exampleViewport_def)
qed

text \<open>
  C10: when the centre is as far from the bottom edge as from the top edge (from the
  right edge as from the left edge), the component of a returned vector on that axis
  is minus the speed of the top (left) distance, so never positive.
\<close>

theorem getRequiredScroll_tie_break:
  assumes "getRequiredScroll container center = Some v"
  shows "(area_bottom container - pos_y center = pos_y center - area_top container \<longrightarrow>
            pos_y v = - getSpeed (pos_y center - area_top container)
                        (getPixelThresholds container vertical) \<and> pos_y v \<le> 0) \<and>
         (area_right container - pos_x center = pos_x center - area_left container \<longrightarrow>
            pos_x v = - getSpeed (pos_x center - area_left container)
                        (getPixelThresholds container horizontal) \<and> pos_x v \<le> 0)"
proof -
  have "0 \<le> getSpeed (pos_y center - area_top container)
               (getPixelThresholds container vertical)"
    and "0 \<le> getSpeed (pos_x center - area_left container)
               (getPixelThresholds container horizontal)"
    by (rule getSpeed_nonneg)+
  then show ?thesis
    using assms unfolding getRequiredScroll_components Let_def
    by (auto split: if_splits)
qed

theorem getRequiredScroll_tie_break_witness:
  "getRequiredScroll exampleViewport \<lparr>pos_x = 500, pos_y = 790\<rparr>
     = Some \<lparr>pos_x = 0, pos_y = 28\<rparr> \<and>
   area_right exampleViewport - 500 = 500 - area_left exampleViewport \<and>
   pos_x \<lparr>pos_x = 0, pos_y = 28\<rparr>
     = - getSpeed 500 (getPixelThresholds exampleViewport horizontal) \<and>
   pos_x \<lparr>pos_x = 0, pos_y = 28::real\<rparr> \<le> 0"
proof -
  have tie: "area_right exampleViewport - 500 = 500 - area_left exampleViewport"
    by (simp add: exampleViewport_def)
  show ?thesis
    using getRequiredScroll_tie_break [OF example_bottom_scroll] tie example_bottom_scroll
    by (simp add: exampleViewport_def)
qed

section \<open>Properties of the fluid path\<close>

lemmas example_defs = exampleFrame_def exampleItem_def wideItem_def mediumItem_def
  exampleDroppable_def plainDroppable_def exampleDrag_def exampleState_def exampleEnv_def

lemma example_inner_window: "getRequiredScroll exampleViewport \<lparr>pos_x = 250, pos_y = 490\<rparr> = None"
  by (simp add: getRequiredScroll_components exampleViewport_def speed_defs)

lemma example_inner_frame:
  "getRequiredScroll exampleFrame \<lparr>pos_x = 250, pos_y = 490\<rparr> = Some \<lparr>pos_x = 0, pos_y = 28\<rparr>"
  by (simp add: getRequiredScroll_components exampleFrame_def speed_defs)

text \<open>
  C6: in the fluid path, when the dragged item's box with margin is wider or higher
  than the viewport, the call returns at once with no effect at all: the solver
  \<open>getRequiredScroll\<close> is not invoked and neither a window scroll nor a droppable
  scroll is scheduled. The witness is the spec's example, an item 1200 wide against a
  viewport 1000 wide.
\<close>

theorem fluidScroll_too_big_for_viewport:
  assumes "state_drag state = Some drag"
    and "state_dimension_draggable state (drag_initial_descriptor_id drag) = Some draggable"
    and "isTooBigForAutoScrolling (getViewport env) (draggable_page_withMargin draggable)"
  shows "fluidScroll env state = ([], Returned) \<and>
         (\<forall>area point. GetRequiredScrollCall area point \<notin> set (fst (fluidScroll env state))) \<and>
         (\<forall>change. ScheduleWindowScroll change \<notin> set (fst (fluidScroll env state))) \<and>
         (\<forall>ident change. ScheduleDroppableScroll ident change
            \<notin> set (fst (fluidScroll env state)))"
proof -
  have "fluidScroll env state = ([], Returned)"
    using assms by (simp add: fluidScroll_def Let_def)
  then show ?thesis by simp
qed

theorem fluidScroll_too_big_for_viewport_witness:
  "area_width (draggable_page_withMargin wideItem) = 1200 \<and>
   area_width exampleViewport = 1000 \<and>
   isTooBigForAutoScrolling exampleViewport (draggable_page_withMargin wideItem) \<and>
   fluidScroll (exampleEnv True True None None (Some exampleDroppable))
     (exampleState ''DRAGGING''
        (Some (exampleDrag ''FLUID'' \<lparr>pos_x = 500, pos_y = 790\<rparr> None None)) wideItem exampleDroppable)
     = ([], Returned)"
proof -
  let ?env = "exampleEnv True True None None (Some exampleDroppable)"
  let ?drag = "exampleDrag ''FLUID'' \<lparr>pos_x = 500, pos_y = 790\<rparr> None None"
  let ?state = "exampleState ''DRAGGING'' (Some ?drag) wideItem exampleDroppable"
  have big: "isTooBigForAutoScrolling (getViewport ?env) (draggable_page_withMargin wideItem)"
    by (simp add: isTooBigForAutoScrolling_def example_defs exampleViewport_def)
  have d: "state_drag ?state = Some ?drag" by (simp add: example_defs)
  have i: "state_dimension_draggable ?state (drag_initial_descriptor_id ?drag) = Some wideItem"
    by (simp add: exampleState_def exampleDrag_def)
  show ?thesis
    using fluidScroll_too_big_for_viewport [OF d i big] big
    by (simp add: exampleEnv_def wideItem_def exampleViewport_def)
qed

text \<open>
  C5: in the fluid path the window comes first. When the solver gives a scroll for
  the viewport and the window can scroll by it, exactly that window scroll is
  scheduled and nothing else. Whenever a droppable scroll is scheduled, no window
  scroll is scheduled in the same call, the solver was called for the viewport first,
  and it gave none or a scroll the window cannot perform.
\<close>

theorem fluidScroll_window_first:
  "(\<forall>drag draggable required.
      state_drag state = Some drag \<longrightarrow>
      state_dimension_draggable state (drag_initial_descriptor_id drag) = Some draggable \<longrightarrow>
      \<not> isTooBigForAutoScrolling (getViewport env) (draggable_page_withMargin draggable) \<longrightarrow>
      getRequiredScroll (getViewport env) (drag_current_page_center drag) = Some required \<longrightarrow>
      canScrollWindow env required \<longrightarrow>
      fluidScroll env state =
        ([GetRequiredScrollCall (getViewport env) (drag_current_page_center drag),
          ScheduleWindowScroll required], Returned)) \<and>
   (\<forall>ident change.
      ScheduleDroppableScroll ident change \<in> set (fst (fluidScroll env state)) \<longrightarrow>
      (\<forall>required. ScheduleWindowScroll required \<notin> set (fst (fluidScroll env state))) \<and>
      (\<exists>drag. state_drag state = Some drag \<and>
         (\<exists>rest. fst (fluidScroll env state) = GetRequiredScrollCall (getViewport env) (drag_current_page_center drag) # rest) \<and>
         (\<forall>required.
            getRequiredScroll (getViewport env) (drag_current_page_center drag) = Some required
            \<longrightarrow> \<not> canScrollWindow env required)))"
  by (auto simp: fluidScroll_def Let_def split: option.splits if_splits)

theorem fluidScroll_window_first_witness:
  "fluidScroll (exampleEnv True True None None (Some exampleDroppable))
     (exampleState ''DRAGGING''
        (Some (exampleDrag ''FLUID'' \<lparr>pos_x = 500, pos_y = 790\<rparr> None None))
        exampleItem exampleDroppable)
     = ([GetRequiredScrollCall exampleViewport \<lparr>pos_x = 500, pos_y = 790\<rparr>,
         ScheduleWindowScroll \<lparr>pos_x = 0, pos_y = 28\<rparr>], Returned) \<and>
   ScheduleDroppableScroll ''list'' \<lparr>pos_x = 0, pos_y = 28\<rparr> \<in> set (fst
     (fluidScroll (exampleEnv True True None None (Some exampleDroppable))
        (exampleState ''DRAGGING''
           (Some (exampleDrag ''FLUID'' \<lparr>pos_x = 250, pos_y = 490\<rparr> None None))
           exampleItem exampleDroppable))) \<and>
   (\<forall>required. ScheduleWindowScroll required \<notin> set (fst
     (fluidScroll (exampleEnv True True None None (Some exampleDroppable))
        (exampleState ''DRAGGING''
           (Some (exampleDrag ''FLUID'' \<lparr>pos_x = 250, pos_y = 490\<rparr> None None))
           exampleItem exampleDroppable))))"
proof -
  let ?env = "exampleEnv True True None None (Some exampleDroppable)"
  let ?edge = "exampleDrag ''FLUID'' \<lparr>pos_x = 500, pos_y = 790\<rparr> None None"
  let ?inner = "exampleDrag ''FLUID'' \<lparr>pos_x = 250, pos_y = 490\<rparr> None None"
  let ?atEdge = "exampleState ''DRAGGING'' (Some ?edge) exampleItem exampleDroppable"
  let ?inside = "exampleState ''DRAGGING'' (Some ?inner) exampleItem exampleDroppable"
  have fitsViewport:
    "\<not> isTooBigForAutoScrolling exampleViewport (draggable_page_withMargin exampleItem)"
    by (simp add: isTooBigForAutoScrolling_def exampleViewport_def exampleItem_def)
  have fitsFrame:
    "\<not> isTooBigForAutoScrolling exampleFrame (draggable_page_withMargin exampleItem)"
    by (simp add: isTooBigForAutoScrolling_def exampleFrame_def exampleItem_def)
  have window: "fluidScroll ?env ?atEdge
     = ([GetRequiredScrollCall exampleViewport \<lparr>pos_x = 500, pos_y = 790\<rparr>,
         ScheduleWindowScroll \<lparr>pos_x = 0, pos_y = 28\<rparr>], Returned)"
    using fluidScroll_window_first [of ?atEdge ?env, THEN conjunct1, rule_format,
        of ?edge exampleItem "\<lparr>pos_x = 0, pos_y = 28\<rparr>"]
      fitsViewport example_bottom_scroll
    by (simp add: exampleState_def exampleDrag_def exampleEnv_def)
  have droppable: "ScheduleDroppableScroll ''list'' \<lparr>pos_x = 0, pos_y = 28\<rparr>
     \<in> set (fst (fluidScroll ?env ?inside))"
    by (simp add: fluidScroll_def Let_def exampleState_def exampleDrag_def exampleEnv_def
        exampleDroppable_def fitsViewport fitsFrame example_inner_window example_inner_frame)
  have "\<forall>required. ScheduleWindowScroll required \<notin> set (fst (fluidScroll ?env ?inside))"
    using fluidScroll_window_first [of ?inside ?env, THEN conjunct2, rule_format,
        OF droppable]
    by simp
  then show ?thesis using window droppable by simp
qed

section \<open>Properties of the jump path\<close>

text \<open>
  C4: in the jump path, when the destination droppable has a closest scrollable that
  the dragged item fits in, the droppable can scroll by the request and the window
  cannot, the effects are: if \<open>getDroppableOverlap\<close> gives an overlap, a warning and
  one move of the item by exactly that overlap, and then in either case the immediate
  call of \<open>scrollDroppable\<close> with the request; nothing is scheduled.
\<close>

theorem jumpScroll_droppable_overlap:
  assumes "state_drag state = Some drag"
    and "drag_scrollJumpRequest drag = Some request"
    and "drag_impact_destination drag = Some destination"
    and "state_dimension_droppable state (location_droppableId destination) = Some droppable"
    and "droppable_viewport_closestScrollable droppable = Some closestScrollable"
    and "state_dimension_draggable state (drag_initial_descriptor_id drag) = Some draggable"
    and "\<not> isTooBigForAutoScrolling (scrollable_frame closestScrollable)
             (draggable_page_withMargin draggable)"
    and "canScrollDroppable env droppable request"
    and "\<not> canScrollWindow env request"
  shows "jumpScroll env state =
     (case getDroppableOverlap env droppable request of
        None \<Rightarrow> [ScrollDroppable (droppable_descriptor_id droppable) request]
      | Some overlap \<Rightarrow>
          [ConsoleWarn ''DROPPABLE OVERLAP'' (Some overlap),
           Move (drag_initial_descriptor_id drag)
             (add (drag_current_client_selection drag) overlap)
             (getWindowScrollPosition env) True,
           ScrollDroppable (droppable_descriptor_id droppable) request],
      Returned)"
  using assms
  by (simp add: jumpScroll_def performMove_def Let_def split: option.splits)

theorem jumpScroll_droppable_overlap_witness:
  "jumpScroll (exampleEnv False True None (Some \<lparr>pos_x = 0, pos_y = 5\<rparr>) None)
     (exampleState ''DRAGGING''
        (Some (exampleDrag ''JUMP'' \<lparr>pos_x = 250, pos_y = 490\<rparr>
           (Some \<lparr>location_droppableId = ''list''\<rparr>) (Some \<lparr>pos_x = 0, pos_y = 30\<rparr>)))
        exampleItem exampleDroppable)
     = ([ConsoleWarn ''DROPPABLE OVERLAP'' (Some \<lparr>pos_x = 0, pos_y = 5\<rparr>),
         Move ''item'' \<lparr>pos_x = 10, pos_y = 25\<rparr> origin True,
         ScrollDroppable ''list'' \<lparr>pos_x = 0, pos_y = 30\<rparr>], Returned) \<and>
   jumpScroll (exampleEnv False True None None None)
     (exampleState ''DRAGGING''
        (Some (exampleDrag ''JUMP'' \<lparr>pos_x = 250, pos_y = 490\<rparr>
           (Some \<lparr>location_droppableId = ''list''\<rparr>) (Some \<lparr>pos_x = 0, pos_y = 30\<rparr>)))
        exampleItem exampleDroppable)
     = ([ScrollDroppable ''list'' \<lparr>pos_x = 0, pos_y = 30\<rparr>], Returned)"
proof -
  let ?drag = "exampleDrag ''JUMP'' \<lparr>pos_x = 250, pos_y = 490\<rparr>
           (Some \<lparr>location_droppableId = ''list''\<rparr>) (Some \<lparr>pos_x = 0, pos_y = 30\<rparr>)"
  let ?state = "exampleState ''DRAGGING'' (Some ?drag) exampleItem exampleDroppable"
  have d: "state_drag ?state = Some ?drag" by (simp add: exampleState_def)
  have r: "drag_scrollJumpRequest ?drag = Some \<lparr>pos_x = 0, pos_y = 30\<rparr>"
    by (simp add: exampleDrag_def)
  have l: "drag_impact_destination ?drag = Some \<lparr>location_droppableId = ''list''\<rparr>"
    by (simp add: exampleDrag_def)
  have p: "state_dimension_droppable ?state
             (location_droppableId \<lparr>location_droppableId = ''list''\<rparr>) = Some exampleDroppable"
    by (simp add: exampleState_def)
  have c: "droppable_viewport_closestScrollable exampleDroppable
             = Some \<lparr>scrollable_frame = exampleFrame\<rparr>"
    by (simp add: exampleDroppable_def)
  have i: "state_dimension_draggable ?state (drag_initial_descriptor_id ?drag)
             = Some exampleItem"
    by (simp add: exampleState_def exampleDrag_def)
  have fits: "\<not> isTooBigForAutoScrolling (scrollable_frame \<lparr>scrollable_frame = exampleFrame\<rparr>)
                   (draggable_page_withMargin exampleItem)"
    by (simp add: isTooBigForAutoScrolling_def exampleFrame_def exampleItem_def)
  note both = jumpScroll_droppable_overlap [OF d r l p c i fits]
  show ?thesis
    using both [of "exampleEnv False True None (Some \<lparr>pos_x = 0, pos_y = 5\<rparr>) None"]
      both [of "exampleEnv False True None None None"]
    by (simp add: exampleEnv_def exampleDrag_def exampleDroppable_def add_def)
qed

section \<open>The guard against oversized items\<close>

lemma fluid_viewport_guard:
  assumes "state_drag state = Some drag"
    and "state_dimension_draggable state (drag_initial_descriptor_id drag) = Some draggable"
    and "isTooBigForAutoScrolling (getViewport env) (draggable_page_withMargin draggable)"
  shows "fluidScroll env state = ([], Returned)"
  using assms by (simp add: fluidScroll_def Let_def)

lemma fluid_frame_guard:
  assumes "state_drag state = Some drag"
    and "state_dimension_draggable state (drag_initial_descriptor_id drag) = Some draggable"
    and "getScrollableDroppableOver env (drag_current_page_center drag)
           (state_dimension_droppable state) = Some droppable"
    and "droppable_viewport_closestScrollable droppable = Some closestScrollable"
    and "isTooBigForAutoScrolling (scrollable_frame closestScrollable)
           (draggable_page_withMargin draggable)"
  shows "ScheduleDroppableScroll ident change \<notin> set (fst (fluidScroll env state))"
  using assms by (simp add: fluidScroll_def Let_def split: option.splits)

lemma jump_frame_guard:
  assumes "state_drag state = Some drag"
    and "state_dimension_draggable state (drag_initial_descriptor_id drag) = Some draggable"
    and "drag_scrollJumpRequest drag = Some request"
    and "drag_impact_destination drag = Some destination"
    and "state_dimension_droppable state (location_droppableId destination) = Some droppable"
    and "droppable_viewport_closestScrollable droppable = Some closestScrollable"
    and "isTooBigForAutoScrolling (scrollable_frame closestScrollable)
           (draggable_page_withMargin draggable)"
  shows "jumpScroll env state =
           ([Move (drag_initial_descriptor_id drag)
               (add (drag_current_client_selection drag) request)
               (getWindowScrollPosition env) True], Returned)"
  using assms by (simp add: jumpScroll_def performMove_def Let_def)

lemma jump_viewport_guard_no_scroll:
  assumes "state_drag state = Some drag"
    and "state_dimension_draggable state (drag_initial_descriptor_id drag) = Some draggable"
    and "isTooBigForAutoScrolling (getViewport env) (draggable_page_withMargin draggable)"
  shows "ScrollWindow change \<notin> set (fst (jumpScroll env state))"
  using assms
  by (simp add: jumpScroll_def performMove_def Let_def split: option.splits)

lemma jump_viewport_guard_move:
  assumes "state_drag state = Some drag"
    and "state_dimension_draggable state (drag_initial_descriptor_id drag) = Some draggable"
    and "drag_scrollJumpRequest drag = Some request"
    and "drag_impact_destination drag = Some destination"
    and "state_dimension_droppable state (location_droppableId destination) = Some droppable"
    and "case droppable_viewport_closestScrollable droppable of
           None \<Rightarrow> True
         | Some closestScrollable \<Rightarrow>
             \<not> isTooBigForAutoScrolling (scrollable_frame closestScrollable)
                 (draggable_page_withMargin draggable) \<and>
             \<not> canScrollDroppable env droppable request"
    and "isTooBigForAutoScrolling (getViewport env) (draggable_page_withMargin draggable)"
  shows "jumpScroll env state =
           ([Move (drag_initial_descriptor_id drag)
               (add (drag_current_client_selection drag) request)
               (getWindowScrollPosition env) True], Returned)"
  using assms
  by (simp add: jumpScroll_def performMove_def Let_def split: option.splits)

text \<open>
  C7: \<open>isTooBigForAutoScrolling frame subject\<close> holds exactly when the subject is
  wider or higher than the frame. With the dragged item as subject: against the
  viewport, the fluid path does nothing and the jump path never scrolls the window;
  against the frame of the droppable under the centre, the fluid path schedules no
  droppable scroll; against the frame of the destination's closest scrollable, the
  jump path only moves the item by the request; and where the jump path reaches the
  viewport guard (no closest scrollable, or one that fits and cannot scroll), it only
  moves the item by the request.
\<close>

theorem isTooBigForAutoScrolling_suppresses_scrolling:
  "(isTooBigForAutoScrolling frame subject \<longleftrightarrow>
      area_width subject > area_width frame \<or> area_height subject > area_height frame) \<and>
   (\<forall>drag draggable.
      state_drag state = Some drag \<longrightarrow>
      state_dimension_draggable state (drag_initial_descriptor_id drag) = Some draggable \<longrightarrow>
      (isTooBigForAutoScrolling (getViewport env) (draggable_page_withMargin draggable) \<longrightarrow>
         fluidScroll env state = ([], Returned) \<and>
         (\<forall>change. ScrollWindow change \<notin> set (fst (jumpScroll env state)))) \<and>
      (\<forall>droppable closestScrollable.
         getScrollableDroppableOver env (drag_current_page_center drag)
           (state_dimension_droppable state) = Some droppable \<longrightarrow>
         droppable_viewport_closestScrollable droppable = Some closestScrollable \<longrightarrow>
         isTooBigForAutoScrolling (scrollable_frame closestScrollable)
           (draggable_page_withMargin draggable) \<longrightarrow>
         (\<forall>ident change.
            ScheduleDroppableScroll ident change \<notin> set (fst (fluidScroll env state)))) \<and>
      (\<forall>request destination droppable.
         drag_scrollJumpRequest drag = Some request \<longrightarrow>
         drag_impact_destination drag = Some destination \<longrightarrow>
         state_dimension_droppable state (location_droppableId destination)
           = Some droppable \<longrightarrow>
         (\<forall>closestScrollable.
            droppable_viewport_closestScrollable droppable = Some closestScrollable \<longrightarrow>
            isTooBigForAutoScrolling (scrollable_frame closestScrollable)
              (draggable_page_withMargin draggable) \<longrightarrow>
            jumpScroll env state =
              ([Move (drag_initial_descriptor_id drag)
                  (add (drag_current_client_selection drag) request)
                  (getWindowScrollPosition env) True], Returned)) \<and>
         (isTooBigForAutoScrolling (getViewport env) (draggable_page_withMargin draggable) \<longrightarrow>
          (case droppable_viewport_closestScrollable droppable of
             None \<Rightarrow> True
           | Some closestScrollable \<Rightarrow>
               \<not> isTooBigForAutoScrolling (scrollable_frame closestScrollable)
                   (draggable_page_withMargin draggable) \<and>
               \<not> canScrollDroppable env droppable request) \<longrightarrow>
          jumpScroll env state =
            ([Move (drag_initial_descriptor_id drag)
                (add (drag_current_client_selection drag) request)
                (getWindowScrollPosition env) True], Returned))))"
  using fluid_viewport_guard [of state _ _ env] fluid_frame_guard [of state _ _ env]
    jump_frame_guard [of state _ _ _ _ _ _ env]
    jump_viewport_guard_no_scroll [of state _ _ env]
    jump_viewport_guard_move [of state _ _ _ _ _ env]
  by (simp add: isTooBigForAutoScrolling_def [of frame subject])

theorem isTooBigForAutoScrolling_suppresses_scrolling_witness:
  "isTooBigForAutoScrolling exampleViewport (draggable_page_withMargin wideItem) \<and>
   isTooBigForAutoScrolling exampleFrame (draggable_page_withMargin mediumItem) \<and>
   fluidScroll (exampleEnv True True None None (Some exampleDroppable))
     (exampleState ''DRAGGING''
        (Some (exampleDrag ''FLUID'' \<lparr>pos_x = 500, pos_y = 790\<rparr> None None))
        wideItem exampleDroppable)
     = ([], Returned) \<and>
   (\<forall>ident change. ScheduleDroppableScroll ident change \<notin> set (fst
      (fluidScroll (exampleEnv False True None None (Some exampleDroppable))
         (exampleState ''DRAGGING''
            (Some (exampleDrag ''FLUID'' \<lparr>pos_x = 250, pos_y = 490\<rparr> None None))
            mediumItem exampleDroppable)))) \<and>
   jumpScroll (exampleEnv True True None None None)
     (exampleState ''DRAGGING''
        (Some (exampleDrag ''JUMP'' \<lparr>pos_x = 250, pos_y = 490\<rparr>
           (Some \<lparr>location_droppableId = ''list''\<rparr>) (Some \<lparr>pos_x = 0, pos_y = 30\<rparr>)))
        mediumItem exampleDroppable)
     = ([Move ''item'' \<lparr>pos_x = 10, pos_y = 50\<rparr> origin True], Returned) \<and>
   jumpScroll (exampleEnv True True None None None)
     (exampleState ''DRAGGING''
        (Some (exampleDrag ''JUMP'' \<lparr>pos_x = 250, pos_y = 490\<rparr>
           (Some \<lparr>location_droppableId = ''list''\<rparr>) (Some \<lparr>pos_x = 0, pos_y = 30\<rparr>)))
        wideItem plainDroppable)
     = ([Move ''item'' \<lparr>pos_x = 10, pos_y = 50\<rparr> origin True], Returned)"
proof -
  let ?fluidEnv = "exampleEnv True True None None (Some exampleDroppable)"
  let ?frameEnv = "exampleEnv False True None None (Some exampleDroppable)"
  let ?jumpEnv = "exampleEnv True True None None None"
  let ?edge = "exampleDrag ''FLUID'' \<lparr>pos_x = 500, pos_y = 790\<rparr> None None"
  let ?inner = "exampleDrag ''FLUID'' \<lparr>pos_x = 250, pos_y = 490\<rparr> None None"
  let ?jump = "exampleDrag ''JUMP'' \<lparr>pos_x = 250, pos_y = 490\<rparr>
           (Some \<lparr>location_droppableId = ''list''\<rparr>) (Some \<lparr>pos_x = 0, pos_y = 30\<rparr>)"
  have wide: "isTooBigForAutoScrolling exampleViewport (draggable_page_withMargin wideItem)"
    by (simp add: isTooBigForAutoScrolling_def exampleViewport_def wideItem_def)
  have medium: "isTooBigForAutoScrolling exampleFrame (draggable_page_withMargin mediumItem)"
    by (simp add: isTooBigForAutoScrolling_def exampleFrame_def mediumItem_def)
  have a: "fluidScroll ?fluidEnv (exampleState ''DRAGGING'' (Some ?edge) wideItem exampleDroppable)
             = ([], Returned)"
    using isTooBigForAutoScrolling_suppresses_scrolling
      [of _ _ "exampleState ''DRAGGING'' (Some ?edge) wideItem exampleDroppable" ?fluidEnv,
       THEN conjunct2, rule_format, of ?edge wideItem, THEN conjunct1, rule_format]
      wide
    by (simp add: exampleState_def exampleDrag_def exampleEnv_def)
  have b: "ScheduleDroppableScroll ident change \<notin> set (fst
      (fluidScroll ?frameEnv
         (exampleState ''DRAGGING'' (Some ?inner) mediumItem exampleDroppable)))"
    for ident change
    using isTooBigForAutoScrolling_suppresses_scrolling
      [of _ _ "exampleState ''DRAGGING'' (Some ?inner) mediumItem exampleDroppable" ?frameEnv,
       THEN conjunct2, rule_format, of ?inner mediumItem,
       THEN conjunct2, THEN conjunct1, rule_format,
       of exampleDroppable "\<lparr>scrollable_frame = exampleFrame\<rparr>" ident change]
      medium
    by (simp add: exampleState_def exampleDrag_def exampleEnv_def exampleDroppable_def)
  have c: "jumpScroll ?jumpEnv
             (exampleState ''DRAGGING'' (Some ?jump) mediumItem exampleDroppable)
           = ([Move ''item'' \<lparr>pos_x = 10, pos_y = 50\<rparr> origin True], Returned)"
    using isTooBigForAutoScrolling_suppresses_scrolling
      [of _ _ "exampleState ''DRAGGING'' (Some ?jump) mediumItem exampleDroppable" ?jumpEnv,
       THEN conjunct2, rule_format, of ?jump mediumItem,
       THEN conjunct2, THEN conjunct2, rule_format,
       of "\<lparr>pos_x = 0, pos_y = 30\<rparr>" "\<lparr>location_droppableId = ''list''\<rparr>" exampleDroppable,
       THEN conjunct1, rule_format, of "\<lparr>scrollable_frame = exampleFrame\<rparr>"]
      medium
    by (simp add: exampleState_def exampleDrag_def exampleEnv_def exampleDroppable_def add_def)
  have d: "jumpScroll ?jumpEnv
             (exampleState ''DRAGGING'' (Some ?jump) wideItem plainDroppable)
           = ([Move ''item'' \<lparr>pos_x = 10, pos_y = 50\<rparr> origin True], Returned)"
    using isTooBigForAutoScrolling_suppresses_scrolling
      [of _ _ "exampleState ''DRAGGING'' (Some ?jump) wideItem plainDroppable" ?jumpEnv,
       THEN conjunct2, rule_format, of ?jump wideItem,
       THEN conjunct2, THEN conjunct2, rule_format,
       of "\<lparr>pos_x = 0, pos_y = 30\<rparr>" "\<lparr>location_droppableId = ''list''\<rparr>" plainDroppable,
       THEN conjunct2, rule_format]
      wide
    by (simp add: exampleState_def exampleDrag_def exampleEnv_def plainDroppable_def add_def)
  show ?thesis using wide medium a b c d by simp
qed

section \<open>Properties of the lifecycle controller\<close>

text \<open>
  C8: on a transition from the phase DRAGGING to any other phase, \<open>onStateChange\<close>
  cancels the scheduled window scroll and the scheduled droppable scroll and does
  nothing else; whatever was pending before, the next frame invokes no scroll.
\<close>

theorem onStateChange_cancels_on_leaving_drag:
  assumes "state_phase previous = ''DRAGGING''" and "state_phase current \<noteq> ''DRAGGING''"
  shows "onStateChange env previous current
           = ([CancelWindowScroll, CancelDroppableScroll], Returned) \<and>
         nextFrame (foldl schedule pending (fst (onStateChange env previous current))) = {}"
  using assms by (simp add: onStateChange_def nextFrame_def)

theorem onStateChange_cancels_on_leaving_drag_witness:
  "nextFrame
     (foldl schedule \<lparr>pendingWindowScroll = None, pendingDroppableScroll = None\<rparr>
        (fst (onStateChange (exampleEnv True True None None None)
           (exampleState ''DRAGGING''
              (Some (exampleDrag ''FLUID'' \<lparr>pos_x = 500, pos_y = 700\<rparr> None None)) exampleItem exampleDroppable)
           (exampleState ''DRAGGING''
              (Some (exampleDrag ''FLUID'' \<lparr>pos_x = 500, pos_y = 790\<rparr> None None)) exampleItem exampleDroppable))))
     = {ScrollWindow \<lparr>pos_x = 0, pos_y = 28\<rparr>} \<and>
   nextFrame
     (foldl schedule
        (foldl schedule \<lparr>pendingWindowScroll = None, pendingDroppableScroll = None\<rparr>
           (fst (onStateChange (exampleEnv True True None None None)
              (exampleState ''DRAGGING''
                 (Some (exampleDrag ''FLUID'' \<lparr>pos_x = 500, pos_y = 700\<rparr> None None)) exampleItem exampleDroppable)
              (exampleState ''DRAGGING''
                 (Some (exampleDrag ''FLUID'' \<lparr>pos_x = 500, pos_y = 790\<rparr> None None)) exampleItem exampleDroppable))))
        (fst (onStateChange (exampleEnv True True None None None)
           (exampleState ''DRAGGING''
              (Some (exampleDrag ''FLUID'' \<lparr>pos_x = 500, pos_y = 790\<rparr> None None)) exampleItem exampleDroppable)
           (exampleState ''DROP_ANIMATING'' None exampleItem exampleDroppable))))
     = {}"
proof -
  let ?env = "exampleEnv True True None None None"
  let ?dragging = "exampleState ''DRAGGING''
              (Some (exampleDrag ''FLUID'' \<lparr>pos_x = 500, pos_y = 790\<rparr> None None)) exampleItem exampleDroppable"
  let ?before = "exampleState ''DRAGGING''
              (Some (exampleDrag ''FLUID'' \<lparr>pos_x = 500, pos_y = 700\<rparr> None None)) exampleItem exampleDroppable"
  let ?dropping = "exampleState ''DROP_ANIMATING'' None exampleItem exampleDroppable"
  have prev: "state_phase ?dragging = ''DRAGGING''" by (simp add: exampleState_def)
  have cur: "state_phase ?dropping \<noteq> ''DRAGGING''" by (simp add: exampleState_def)
  have fits: "\<not> isTooBigForAutoScrolling exampleViewport (draggable_page_withMargin exampleItem)"
    by (simp add: isTooBigForAutoScrolling_def exampleViewport_def exampleItem_def)
  have scheduled: "onStateChange ?env ?before ?dragging
      = ([GetRequiredScrollCall exampleViewport \<lparr>pos_x = 500, pos_y = 790\<rparr>,
          ScheduleWindowScroll \<lparr>pos_x = 0, pos_y = 28\<rparr>], Returned)"
    by (simp add: onStateChange_def fluidScroll_def Let_def exampleState_def exampleDrag_def
        exampleEnv_def fits example_bottom_scroll)
  show ?thesis
    using onStateChange_cancels_on_leaving_drag [OF prev cur, of ?env]
    by (simp add: scheduled nextFrame_def)
qed

text \<open>
  C9: in the phase DRAGGING with no drag payload, \<open>onStateChange\<close> logs an error
  and has no other effect; so does a jump-mode call that carries a scroll jump request
  but no destination: no scroll, nothing scheduled, no move.
\<close>

theorem onStateChange_invariant_violations:
  "(state_phase current = ''DRAGGING'' \<longrightarrow> state_drag current = None \<longrightarrow>
      onStateChange env previous current = ([ConsoleError ''invalid drag state''], Returned)) \<and>
   (\<forall>drag request.
      state_phase current = ''DRAGGING'' \<longrightarrow> state_drag current = Some drag \<longrightarrow>
      drag_initial_autoScrollMode drag \<noteq> ''FLUID'' \<longrightarrow>
      drag_scrollJumpRequest drag = Some request \<longrightarrow>
      drag_impact_destination drag = None \<longrightarrow>
      onStateChange env previous current =
        ([ConsoleError ''Cannot perform a jump scroll when there is no destination''],
         Returned) \<and>
      jumpScroll env current =
        ([ConsoleError ''Cannot perform a jump scroll when there is no destination''],
         Returned))"
  by (simp add: onStateChange_def jumpScroll_def Let_def)

theorem onStateChange_invariant_violations_witness:
  "onStateChange (exampleEnv True True None None (Some exampleDroppable))
     (exampleState ''DRAGGING'' None exampleItem exampleDroppable) (exampleState ''DRAGGING'' None exampleItem exampleDroppable)
     = ([ConsoleError ''invalid drag state''], Returned) \<and>
   onStateChange (exampleEnv True True None None (Some exampleDroppable))
     (exampleState ''DRAGGING'' None exampleItem exampleDroppable)
     (exampleState ''DRAGGING''
        (Some (exampleDrag ''JUMP'' \<lparr>pos_x = 250, pos_y = 490\<rparr> None
           (Some \<lparr>pos_x = 0, pos_y = 30\<rparr>))) exampleItem exampleDroppable)
     = ([ConsoleError ''Cannot perform a jump scroll when there is no destination''],
        Returned)"
proof -
  let ?env = "exampleEnv True True None None (Some exampleDroppable)"
  let ?empty = "exampleState ''DRAGGING'' None exampleItem exampleDroppable"
  let ?drag = "exampleDrag ''JUMP'' \<lparr>pos_x = 250, pos_y = 490\<rparr> None
           (Some \<lparr>pos_x = 0, pos_y = 30\<rparr>)"
  let ?lost = "exampleState ''DRAGGING'' (Some ?drag) exampleItem exampleDroppable"
  have a: "onStateChange ?env ?empty ?empty = ([ConsoleError ''invalid drag state''], Returned)"
    using onStateChange_invariant_violations [of ?empty ?env ?empty]
    by (simp add: exampleState_def)
  have b: "onStateChange ?env ?empty ?lost =
        ([ConsoleError ''Cannot perform a jump scroll when there is no destination''],
         Returned)"
    using onStateChange_invariant_violations [of ?lost ?env ?empty,
        THEN conjunct2, rule_format, of ?drag "\<lparr>pos_x = 0, pos_y = 30\<rparr>"]
    by (simp add: exampleState_def exampleDrag_def)
  show ?thesis using a b by simp
qed

end
